theory Spec2Isabelle
  imports Main "HOL-Library.Sublist" "HOL-Library.AList"
begin

unbundle bit_operations_syntax

section \<open>Data model of the headless proxy handler\<close>

text \<open>
  A \<^verbatim>\<open>*rod.Browser\<close> is an opaque handle of the rendering engine; the model names
  handles by numbers. A \<^verbatim>\<open>nil\<close> handle is \<open>None\<close>.
\<close>

type_synonym browser = nat

text \<open>
  \<^verbatim>\<open>http.Header\<close> is a map from canonical header names to the list of values of that
  name, kept here as an association list.
\<close>

type_synonym header = "(string \<times> string list) list"

record cookie =
  Name :: string
  Value :: string
  Domain :: string
  Path :: string

text \<open>
  The parts of \<^verbatim>\<open>*http.Request\<close> the handler reads. \<open>URL_String\<close> is the result of
  \<^verbatim>\<open>r.URL.String()\<close>, \<open>Cookies\<close> the result of \<^verbatim>\<open>r.Cookies()\<close>, and \<open>Body\<close> the
  result of \<^verbatim>\<open>io.ReadAll(r.Body)\<close> (\<open>None\<close> when reading fails).
\<close>

record request =
  Method :: string
  URL_Path :: string
  URL_RawQuery :: string
  URL_String :: string
  Header :: header
  Cookies :: "cookie list"
  Body :: "string option"

text \<open>Times are integers (nanoseconds); \<open>Expiration\<close> is the entry's expiry time.\<close>

record cacheEntry =
  Content :: string
  Headers :: header
  StatusCode :: int
  Expiration :: int

text \<open>
  The handler struct. The locks and the logger carry no data of their own: every
  operation below is one critical section, and log records are events (debug records
  are left out). The cache map is an association list with one pair per key; a
  \<^verbatim>\<open>nil\<close> map and an empty map are both \<open>[]\<close> (\<^verbatim>\<open>Provision\<close> makes the map whenever
  \<open>CacheTTL\<close> is positive, and it is written only then).
\<close>

record HeadlessProxy =
  Upstream :: string
  Timeout :: int
  UserAgent :: string
  EnableJS :: bool
  ForwardCookies :: bool
  ForwardHeaders :: "string list"
  CacheTTL :: int
  MaxBrowsers :: int
  OptimizeResources :: bool
  CompressImages :: bool
  MinifyContent :: bool
  browserPool :: "browser list"
  cache :: "(string \<times> cacheEntry) list"

text \<open>
  What the rendering engine answers when \<^verbatim>\<open>createBrowser\<close> launches and connects:
  a connected browser, a connection error, or a panic of \<^verbatim>\<open>MustLaunch\<close>.
\<close>

datatype launch = Connected browser | ConnectFailed | LaunchPanics

datatype panic = Panic

text \<open>The effects of the handler on the engine, the log and the response writer.\<close>

datatype event =
    EngineLaunch
  | BrowserClose browser
  | LogError string
  | LogWarn string
  | LogInfo string
  | CacheLookup string
  | CacheStore string
  | PageOpen browser
  | PageClose
  | SetUserAgent string
  | EvalOnNewDocument
  | SetCookies cookie
  | HijackRequests
  | RouterStop
  | Navigate string
  | WaitNavigation
  | WaitIdle
  | OptimizePage
  | PageHTML
  | EvalFetch string string "(string \<times> string) list" string
  | PageCookies
  | AddHeader string string
  | WriteHeader int
  | WriteBody string
  | MetricInc string

section \<open>Standard-library operations the handler relies on\<close>

subsection \<open>Digests\<close>

text \<open>
  \<^verbatim>\<open>crypto/sha256\<close>, \<^verbatim>\<open>crypto/md5\<close> and \<^verbatim>\<open>hex.EncodeToString\<close> belong to Go's standard
  library. They are written out here (FIPS 180-4 and RFC 1321, on 32-bit words kept as
  naturals with the wrap-around \<open>mod 2\<^sup>3\<^sup>2\<close> explicit) so that cache keys of concrete
  requests can be computed.
\<close>

definition add32 :: "nat \<Rightarrow> nat \<Rightarrow> nat" where
  "add32 x y = (x + y) mod 4294967296"

definition rotr :: "nat \<Rightarrow> nat \<Rightarrow> nat" where
  "rotr n x = drop_bit n x OR push_bit (32 - n) (take_bit n x)"

definition K256 :: "nat list" where
  "K256 = [1116352408, 1899447441, 3049323471, 3921009573, 961987163, 1508970993,
     2453635748, 2870763221, 3624381080, 310598401, 607225278, 1426881987,
     1925078388, 2162078206, 2614888103, 3248222580, 3835390401, 4022224774,
     264347078, 604807628, 770255983, 1249150122, 1555081692, 1996064986,
     2554220882, 2821834349, 2952996808, 3210313671, 3336571891, 3584528711,
     113926993, 338241895, 666307205, 773529912, 1294757372, 1396182291,
     1695183700, 1986661051, 2177026350, 2456956037, 2730485921, 2820302411,
     3259730800, 3345764771, 3516065817, 3600352804, 4094571909, 275423344,
     430227734, 506948616, 659060556, 883997877, 958139571, 1322822218,
     1537002063, 1747873779, 1955562222, 2024104815, 2227730452, 2361852424,
     2428436474, 2756734187, 3204031479, 3329325298]"

definition H256 :: "nat list" where
  "H256 = [1779033703, 3144134277, 1013904242, 2773480762, 1359893119, 2600822924, 528734635, 1541459225]"

definition Ch :: "nat \<Rightarrow> nat \<Rightarrow> nat \<Rightarrow> nat" where
  "Ch x y z = (x AND y) XOR ((x XOR 4294967295) AND z)"
definition Maj :: "nat \<Rightarrow> nat \<Rightarrow> nat \<Rightarrow> nat" where
  "Maj a b c = (a AND b) XOR (a AND c) XOR (b AND c)"
definition bsig0 :: "nat \<Rightarrow> nat" where
  "bsig0 x = rotr 2 x XOR rotr 13 x XOR rotr 22 x"
definition bsig1 :: "nat \<Rightarrow> nat" where
  "bsig1 x = rotr 6 x XOR rotr 11 x XOR rotr 25 x"
definition ssig0 :: "nat \<Rightarrow> nat" where
  "ssig0 x = rotr 7 x XOR rotr 18 x XOR drop_bit 3 x"
definition ssig1 :: "nat \<Rightarrow> nat" where
  "ssig1 x = rotr 17 x XOR rotr 19 x XOR drop_bit 10 x"

definition sha_pad :: "string \<Rightarrow> nat list" where
  "sha_pad m = map of_char m @ [128] @ replicate ((119 - length m mod 64) mod 64) 0
     @ map (\<lambda>i. drop_bit (8 * i) (8 * length m) mod 256) [7, 6, 5, 4, 3, 2, 1, 0]"

fun be_words :: "nat list \<Rightarrow> nat list" where
  "be_words (a # b # c # d # bs) = (((a * 256 + b) * 256 + c) * 256 + d) # be_words bs"
| "be_words _ = []"

fun schedule :: "'a list \<Rightarrow> nat list \<Rightarrow> nat list" where
  "schedule [] ws = ws"
| "schedule (k # ks) ws =
     schedule ks (add32 (add32 (ssig1 (ws ! 1)) (ws ! 6)) (add32 (ssig0 (ws ! 14)) (ws ! 15)) # ws)"

fun sha_round :: "nat list \<Rightarrow> nat \<times> nat \<Rightarrow> nat list" where
  "sha_round [a, b, c, d, e, f, g, h] (k, w) =
     (let t1 = add32 (add32 (add32 h (bsig1 e)) (add32 (Ch e f g) k)) w;
          t2 = add32 (bsig0 a) (Maj a b c)
      in [add32 t1 t2, a, b, c, add32 d t1, e, f, g])"
| "sha_round s _ = s"

definition sha_block :: "nat list \<Rightarrow> nat list \<Rightarrow> nat list" where
  "sha_block s ws = map2 add32 s (foldl sha_round s (zip K256 (rev (schedule (drop 16 K256) (rev ws)))))"

fun sha_blocks :: "nat list \<Rightarrow> nat list \<Rightarrow> nat list" where
  "sha_blocks s (w0 # w1 # w2 # w3 # w4 # w5 # w6 # w7 # w8 # w9 # w10 # w11 # w12 # w13 # w14 # w15 # ws) =
     sha_blocks (sha_block s [w0, w1, w2, w3, w4, w5, w6, w7, w8, w9, w10, w11, w12, w13, w14, w15]) ws"
| "sha_blocks s _ = s"

definition hexdigit :: "nat \<Rightarrow> char" where
  "hexdigit n = ''0123456789abcdef'' ! n"

definition hex32 :: "nat \<Rightarrow> string" where
  "hex32 w = map (\<lambda>i. hexdigit (drop_bit (4 * i) w mod 16)) [7, 6, 5, 4, 3, 2, 1, 0]"

definition sha256_hex :: "string \<Rightarrow> string" where
  "sha256_hex m = concat (map hex32 (sha_blocks H256 (be_words (sha_pad m))))"

definition rotl :: "nat \<Rightarrow> nat \<Rightarrow> nat" where
  "rotl n x = push_bit n (take_bit (32 - n) x) OR drop_bit (32 - n) x"

definition md5_table :: "(nat \<times> nat \<times> nat \<times> nat) list" where
  "md5_table = [(0, 0xd76aa478, 7, 0), (0, 0xe8c7b756, 12, 1), (0, 0x242070db, 17, 2),
     (0, 0xc1bdceee, 22, 3), (0, 0xf57c0faf, 7, 4), (0, 0x4787c62a, 12, 5),
     (0, 0xa8304613, 17, 6), (0, 0xfd469501, 22, 7), (0, 0x698098d8, 7, 8),
     (0, 0x8b44f7af, 12, 9), (0, 0xffff5bb1, 17, 10), (0, 0x895cd7be, 22, 11),
     (0, 0x6b901122, 7, 12), (0, 0xfd987193, 12, 13), (0, 0xa679438e, 17, 14),
     (0, 0x49b40821, 22, 15), (1, 0xf61e2562, 5, 1), (1, 0xc040b340, 9, 6),
     (1, 0x265e5a51, 14, 11), (1, 0xe9b6c7aa, 20, 0), (1, 0xd62f105d, 5, 5),
     (1, 0x02441453, 9, 10), (1, 0xd8a1e681, 14, 15), (1, 0xe7d3fbc8, 20, 4),
     (1, 0x21e1cde6, 5, 9), (1, 0xc33707d6, 9, 14), (1, 0xf4d50d87, 14, 3),
     (1, 0x455a14ed, 20, 8), (1, 0xa9e3e905, 5, 13), (1, 0xfcefa3f8, 9, 2),
     (1, 0x676f02d9, 14, 7), (1, 0x8d2a4c8a, 20, 12), (2, 0xfffa3942, 4, 5),
     (2, 0x8771f681, 11, 8), (2, 0x6d9d6122, 16, 11), (2, 0xfde5380c, 23, 14),
     (2, 0xa4beea44, 4, 1), (2, 0x4bdecfa9, 11, 4), (2, 0xf6bb4b60, 16, 7),
     (2, 0xbebfbc70, 23, 10), (2, 0x289b7ec6, 4, 13), (2, 0xeaa127fa, 11, 0),
     (2, 0xd4ef3085, 16, 3), (2, 0x04881d05, 23, 6), (2, 0xd9d4d039, 4, 9),
     (2, 0xe6db99e5, 11, 12), (2, 0x1fa27cf8, 16, 15), (2, 0xc4ac5665, 23, 2),
     (3, 0xf4292244, 6, 0), (3, 0x432aff97, 10, 7), (3, 0xab9423a7, 15, 14),
     (3, 0xfc93a039, 21, 5), (3, 0x655b59c3, 6, 12), (3, 0x8f0ccc92, 10, 3),
     (3, 0xffeff47d, 15, 10), (3, 0x85845dd1, 21, 1), (3, 0x6fa87e4f, 6, 8),
     (3, 0xfe2ce6e0, 10, 15), (3, 0xa3014314, 15, 6), (3, 0x4e0811a1, 21, 13),
     (3, 0xf7537e82, 6, 4), (3, 0xbd3af235, 10, 11), (3, 0x2ad7d2bb, 15, 2),
     (3, 0xeb86d391, 21, 9)]"

definition md5_pad :: "string \<Rightarrow> nat list" where
  "md5_pad m = map of_char m @ [128] @ replicate ((119 - length m mod 64) mod 64) 0
     @ map (\<lambda>i. drop_bit (8 * i) (8 * length m) mod 256) [0, 1, 2, 3, 4, 5, 6, 7]"

fun le_words :: "nat list \<Rightarrow> nat list" where
  "le_words (a # b # c # d # bs) = (((d * 256 + c) * 256 + b) * 256 + a) # le_words bs"
| "le_words _ = []"

fun md5_step :: "nat list \<Rightarrow> nat list \<Rightarrow> nat \<times> nat \<times> nat \<times> nat \<Rightarrow> nat list" where
  "md5_step m [a, b, c, d] (q, k, s, g) =
     (let f = (if q = 0 then (b AND c) OR ((b XOR 4294967295) AND d)
               else if q = 1 then (d AND b) OR ((d XOR 4294967295) AND c)
               else if q = 2 then b XOR c XOR d
               else c XOR (b OR (d XOR 4294967295)));
          x = add32 (add32 f a) (add32 k (m ! g))
      in [d, add32 b (rotl s x), b, c])"
| "md5_step m st _ = st"

definition md5_block :: "nat list \<Rightarrow> nat list \<Rightarrow> nat list" where
  "md5_block st m = map2 add32 st (foldl (md5_step m) st md5_table)"

fun md5_blocks :: "nat list \<Rightarrow> nat list \<Rightarrow> nat list" where
  "md5_blocks s (w0 # w1 # w2 # w3 # w4 # w5 # w6 # w7 # w8 # w9 # w10 # w11 # w12 # w13 # w14 # w15 # ws) =
     md5_blocks (md5_block s [w0, w1, w2, w3, w4, w5, w6, w7, w8, w9, w10, w11, w12, w13, w14, w15]) ws"
| "md5_blocks s _ = s"

definition hex32le :: "nat \<Rightarrow> string" where
  "hex32le w = map (\<lambda>i. hexdigit (drop_bit (4 * i) w mod 16)) [1, 0, 3, 2, 5, 4, 7, 6]"

definition md5_hex :: "string \<Rightarrow> string" where
  "md5_hex m = concat (map hex32le
     (md5_blocks [0x67452301, 0xefcdab89, 0x98badcfe, 0x10325476] (le_words (md5_pad m))))"


subsection \<open>Header maps\<close>

text \<open>
  \<^verbatim>\<open>Header.Get\<close>, \<^verbatim>\<open>Set\<close> and \<^verbatim>\<open>Add\<close> address a header by its canonical name
  (\<^verbatim>\<open>textproto.CanonicalMIMEHeaderKey\<close>): the first letter and every letter after a
  hyphen in upper case, the others in lower case; a name with a byte that is not a token
  character is left as it is.
\<close>

definition validHeaderFieldByte :: "char \<Rightarrow> bool" where
  "validHeaderFieldByte c =
     (let n = (of_char c :: nat)
      in n \<in> {33, 35, 36, 37, 38, 39, 42, 43, 45, 46, 94, 95, 96, 124, 126}
         \<or> (48 \<le> n \<and> n \<le> 57) \<or> (65 \<le> n \<and> n \<le> 90) \<or> (97 \<le> n \<and> n \<le> 122))"

fun canonicalFrom :: "bool \<Rightarrow> string \<Rightarrow> string" where
  "canonicalFrom upper [] = []"
| "canonicalFrom upper (c # cs) =
     (let n = (of_char c :: nat);
          c' = (if upper \<and> 97 \<le> n \<and> n \<le> 122 then char_of (n - 32)
                else if \<not> upper \<and> 65 \<le> n \<and> n \<le> 90 then char_of (n + 32)
                else c)
      in c' # canonicalFrom (c' = CHR ''-'') cs)"

definition canonicalMIMEHeaderKey :: "string \<Rightarrow> string" where
  "canonicalMIMEHeaderKey s = (if list_all validHeaderFieldByte s then canonicalFrom True s else s)"

definition Header_Get :: "header \<Rightarrow> string \<Rightarrow> string" where
  "Header_Get hs k =
     (case map_of hs (canonicalMIMEHeaderKey k) of
        None \<Rightarrow> []
      | Some [] \<Rightarrow> []
      | Some (v # vs) \<Rightarrow> v)"

definition Header_Set :: "header \<Rightarrow> string \<Rightarrow> string \<Rightarrow> header" where
  "Header_Set hs k v = AList.update (canonicalMIMEHeaderKey k) [v] hs"

definition Header_Add :: "header \<Rightarrow> string \<Rightarrow> string \<Rightarrow> header" where
  "Header_Add hs k v =
     AList.update (canonicalMIMEHeaderKey k)
       ((case map_of hs (canonicalMIMEHeaderKey k) of None \<Rightarrow> [] | Some vs \<Rightarrow> vs) @ [v]) hs"

subsection \<open>Strings\<close>

text \<open>\<^verbatim>\<open>strings.Contains\<close>, \<^verbatim>\<open>strings.Join\<close>; \<^verbatim>\<open>HasPrefix\<close> and \<^verbatim>\<open>HasSuffix\<close> are \<open>prefix\<close> and \<open>suffix\<close>.\<close>

fun strings_Contains :: "string \<Rightarrow> string \<Rightarrow> bool" where
  "strings_Contains [] sub = (sub = [])"
| "strings_Contains (c # cs) sub = (prefix sub (c # cs) \<or> strings_Contains cs sub)"

fun strings_Join :: "string list \<Rightarrow> string \<Rightarrow> string" where
  "strings_Join [] sep = []"
| "strings_Join [x] sep = x"
| "strings_Join (x # y # ys) sep = x @ sep @ strings_Join (y # ys) sep"

section \<open>The browser pool\<close>

definition createBrowser :: "launch \<Rightarrow> (panic + browser option) \<times> event list" where
  "createBrowser l =
     (case l of
        LaunchPanics \<Rightarrow> (Inl Panic, [EngineLaunch])
      | ConnectFailed \<Rightarrow> (Inr None, [EngineLaunch, LogError ''failed to connect to browser''])
      | Connected b \<Rightarrow> (Inr (Some b), [EngineLaunch]))"

definition getBrowser ::
  "HeadlessProxy \<Rightarrow> launch \<Rightarrow> (panic + browser option) \<times> HeadlessProxy \<times> event list" where
  "getBrowser h l =
     (if length (browserPool h) > 0
      then (Inr (Some (last (browserPool h))), h\<lparr>browserPool := butlast (browserPool h)\<rparr>, [])
      else (case createBrowser l of (r, ev) \<Rightarrow> (r, h, ev)))"

text \<open>
  When the pool is full the browser is closed in a goroutine of its own; the model
  records the close as an event (an error of \<^verbatim>\<open>Close\<close> is only logged).
\<close>

definition returnBrowser :: "HeadlessProxy \<Rightarrow> browser \<Rightarrow> HeadlessProxy \<times> event list" where
  "returnBrowser h b =
     (if int (length (browserPool h)) \<ge> MaxBrowsers h
      then (h, [BrowserClose b])
      else (h\<lparr>browserPool := browserPool h @ [b]\<rparr>, []))"

text \<open>Sequences of pool operations, each acquire with the engine's answer for it.\<close>

datatype pool_op = Acquire launch | Release browser

definition pool_step :: "HeadlessProxy \<Rightarrow> pool_op \<Rightarrow> HeadlessProxy" where
  "pool_step h op =
     (case op of
        Acquire l \<Rightarrow> fst (snd (getBrowser h l))
      | Release b \<Rightarrow> fst (returnBrowser h b))"

fun pool_run :: "HeadlessProxy \<Rightarrow> pool_op list \<Rightarrow> HeadlessProxy list" where
  "pool_run h [] = [h]"
| "pool_run h (op # ops) = h # pool_run (pool_step h op) ops"

definition pool_bounded :: "HeadlessProxy \<Rightarrow> bool" where
  "pool_bounded h = (0 \<le> int (length (browserPool h)) \<and> int (length (browserPool h)) \<le> MaxBrowsers h)"

section \<open>The response cache of the handler file\<close>

text \<open>
  \<^verbatim>\<open>getCacheKey\<close> writes into a SHA-256 hasher, in this order: the method, the path, the
  raw query, \<^verbatim>\<open>header + ":" + value\<close> for every configured forward header with a
  non-empty value, and, when cookies are forwarded, \<^verbatim>\<open>name + "=" + value\<close> for every
  cookie in the order of \<^verbatim>\<open>r.Cookies()\<close>. \<open>cacheKeyInput\<close> is the byte sequence written.
\<close>

definition cacheKeyInput :: "HeadlessProxy \<Rightarrow> request \<Rightarrow> string" where
  "cacheKeyInput h r =
     Method r @ URL_Path r @ URL_RawQuery r
     @ concat (map (\<lambda>hd. if Header_Get (Header r) hd \<noteq> [] then hd @ '':'' @ Header_Get (Header r) hd else [])
                (ForwardHeaders h))
     @ (if ForwardCookies h then concat (map (\<lambda>c. Name c @ ''='' @ Value c) (Cookies r)) else [])"

definition getCacheKey :: "HeadlessProxy \<Rightarrow> request \<Rightarrow> string" where
  "getCacheKey h r = sha256_hex (cacheKeyInput h r)"

text \<open>
  \<^verbatim>\<open>getCachedResponse\<close> at clock reading \<open>now\<close>: the hit (content, headers, status) or
  \<open>None\<close>, the handler (an expired entry is deleted) and the events.
\<close>

definition getCachedResponse ::
  "HeadlessProxy \<Rightarrow> request \<Rightarrow> int \<Rightarrow> (string \<times> header \<times> int) option \<times> HeadlessProxy \<times> event list" where
  "getCachedResponse h r now =
     (if CacheTTL h \<le> 0 then (None, h, [])
      else
        (let key = getCacheKey h r
         in case map_of (cache h) key of
              Some entry \<Rightarrow>
                (if now < Expiration entry
                 then (Some (Content entry, Headers entry, StatusCode entry), h, [CacheLookup key])
                 else (None, h\<lparr>cache := AList.delete key (cache h)\<rparr>, [CacheLookup key]))
            | None \<Rightarrow> (None, h, [CacheLookup key])))"

text \<open>
  \<^verbatim>\<open>setCachedResponse\<close> at clock reading \<open>now\<close> (the two readings of the clock inside one
  call are taken as one). The duration \<^verbatim>\<open>CacheTTL * time.Second\<close> is in nanoseconds; its
  64-bit wrap-around, for a TTL of more than 292 years, is left out.
\<close>

definition setCachedResponse ::
  "HeadlessProxy \<Rightarrow> request \<Rightarrow> string \<Rightarrow> header \<Rightarrow> int \<Rightarrow> int \<Rightarrow> HeadlessProxy \<times> event list" where
  "setCachedResponse h r content headers statusCode now =
     (if CacheTTL h \<le> 0 then (h, [])
      else
        (let key = getCacheKey h r;
             swept = (if length (cache h) > 1000
                      then filter (\<lambda>(k, v). \<not> Expiration v < now) (cache h)
                      else cache h)
         in (h\<lparr>cache := AList.update key
                 \<lparr>Content = content, Headers = headers, StatusCode = statusCode,
                  Expiration = now + CacheTTL h * 1000000000\<rparr> swept\<rparr>,
             [CacheStore key])))"

section \<open>The response cache of the cache file\<close>

text \<open>
  The repository defines the three cache functions a second time, in the cache file that
  is stored with the tests. These are that file's definitions: the key is the MD5 digest
  of the URL, two fixed headers and the cookies, and the empty string for a request that
  is not a GET.
\<close>

definition cache_getCacheKey :: "HeadlessProxy \<Rightarrow> request \<Rightarrow> string" where
  "cache_getCacheKey h r =
     (if Method r \<noteq> ''GET'' then []
      else md5_hex
        (URL_String r
         @ concat (map (\<lambda>headerKey. if Header_Get (Header r) headerKey \<noteq> []
                                      then ''|'' @ headerKey @ '':'' @ Header_Get (Header r) headerKey
                                      else [])
                    [''Accept-Language'', ''User-Agent''])
         @ (if ForwardCookies h
            then (let cookies = map (\<lambda>c. Name c @ ''='' @ Value c) (Cookies r)
                  in if length cookies > 0 then ''|cookies:'' @ strings_Join cookies ''&'' else [])
            else [])))"

definition cache_getCachedResponse ::
  "HeadlessProxy \<Rightarrow> request \<Rightarrow> int \<Rightarrow> (string \<times> header \<times> int) option \<times> HeadlessProxy \<times> event list" where
  "cache_getCachedResponse h r now =
     (if CacheTTL h \<le> 0 then (None, h, [])
      else
        (let key = cache_getCacheKey h r
         in if key = [] then (None, h, [])
            else (case map_of (cache h) key of
                    None \<Rightarrow> (None, h, [CacheLookup key])
                  | Some entry \<Rightarrow>
                      (if Expiration entry < now then (None, h, [CacheLookup key])
                       else (Some (Content entry, Headers entry, StatusCode entry), h, [CacheLookup key])))))"

definition cache_cleanupCache :: "HeadlessProxy \<Rightarrow> int \<Rightarrow> HeadlessProxy \<times> event list" where
  "cache_cleanupCache h now =
     (h\<lparr>cache := filter (\<lambda>(k, v). \<not> Expiration v < now) (cache h)\<rparr>, [LogInfo ''cache cleanup completed''])"

definition cache_setCachedResponse ::
  "HeadlessProxy \<Rightarrow> request \<Rightarrow> string \<Rightarrow> header \<Rightarrow> int \<Rightarrow> int \<Rightarrow> HeadlessProxy \<times> event list" where
  "cache_setCachedResponse h r content headers statusCode now =
     (if CacheTTL h \<le> 0 \<or> statusCode < 200 \<or> statusCode \<ge> 300 then (h, [])
      else if Method r \<noteq> ''GET'' then (h, [])
      else
        (let key = cache_getCacheKey h r
         in if key = [] then (h, [])
            else if Header_Get headers ''Cache-Control'' \<noteq> []
                    \<and> (strings_Contains (Header_Get headers ''Cache-Control'') ''no-store''
                       \<or> strings_Contains (Header_Get headers ''Cache-Control'') ''no-cache'')
            then (h, [])
            else
              (let h' = h\<lparr>cache := AList.update key
                          \<lparr>Content = content, Headers = headers, StatusCode = statusCode,
                           Expiration = now + CacheTTL h * 1000000000\<rparr> (cache h)\<rparr>
               in if length (cache h') > 1000
                  then (case cache_cleanupCache h' now of (h'', ev) \<Rightarrow> (h'', CacheStore key # ev))
                  else (h', [CacheStore key]))))"

section \<open>Provisioning\<close>

definition initBrowserPool ::
  "HeadlessProxy \<Rightarrow> launch \<Rightarrow> (panic + unit) \<times> HeadlessProxy \<times> event list" where
  "initBrowserPool h l =
     (case createBrowser l of
        (Inl p, ev) \<Rightarrow> (Inl p, h, ev)
      | (Inr None, ev) \<Rightarrow> (Inr (), h, ev)
      | (Inr (Some b), ev) \<Rightarrow>
          (Inr (), h\<lparr>browserPool := browserPool h @ [b]\<rparr>, ev @ [LogInfo ''initial browser added to pool'']))"

definition defaultUserAgent :: string where
  "defaultUserAgent = ''Mozilla/5.0 (Windows NT 10.0; Win64; x64) AppleWebKit/537.36 (KHTML, like Gecko) Chrome/91.0.4472.124 Safari/537.36''"

text \<open>
  \<^verbatim>\<open>Provision\<close>, step by step as the source assigns the fields. The result is \<open>Inr ()\<close>
  for the \<^verbatim>\<open>nil\<close> error it returns, or the panic of the launcher.
\<close>

definition Provision ::
  "HeadlessProxy \<Rightarrow> launch \<Rightarrow> (panic + unit) \<times> HeadlessProxy \<times> event list" where
  "Provision h l =
     (let h1 = (if Timeout h \<le> 0 then h\<lparr>Timeout := 30\<rparr> else h);
          h2 = (if UserAgent h1 = [] then h1\<lparr>UserAgent := defaultUserAgent\<rparr> else h1);
          h3 = (if \<not> EnableJS h2 then h2\<lparr>EnableJS := True\<rparr> else h2);
          h4 = (if MaxBrowsers h3 \<le> 0 then h3\<lparr>MaxBrowsers := 5\<rparr> else h3);
          h5 = (if CacheTTL h4 > 0 then h4\<lparr>cache := []\<rparr> else h4);
          h6 = h5\<lparr>browserPool := []\<rparr>
      in case initBrowserPool h6 l of
           (Inl p, h7, ev) \<Rightarrow> (Inl p, h7, ev)
         | (Inr u, h7, ev) \<Rightarrow> (Inr (), h7, ev @ [LogInfo ''headless proxy module initialized'']))"

section \<open>The request pipeline\<close>

text \<open>
  What the page's script-level \<^verbatim>\<open>fetch\<close> reported: the fields of the result map, each
  present with the type the handler asks for, or absent.
\<close>

record fetch =
  f_error :: "string option"
  f_headers :: "(string \<times> string) list option"
  f_status :: "int option"
  f_body :: "string option"

record netCookie =
  nc_Name :: string
  nc_Value :: string
  nc_Path :: string
  nc_Domain :: string
  nc_Expires :: int
  nc_Secure :: bool
  nc_HTTPOnly :: bool

text \<open>
  Everything outside the handler that one call of \<^verbatim>\<open>ServeHTTP\<close> depends on: the clock, the
  engine's answer to a launch, the outcome of each operation on the page, and whether
  writing to the response writer succeeds. \<open>hijackPanics\<close> is a panic of
  \<^verbatim>\<open>router.MustAdd\<close>; \<open>rfc1123\<close> formats a Unix time.
\<close>

record env =
  nowLookup :: int
  nowStore :: int
  engine :: launch
  pageOK :: bool
  pageCloseOK :: bool
  userAgentOK :: bool
  newDocumentOK :: bool
  setCookieOK :: "cookie \<Rightarrow> bool"
  hijackPanics :: bool
  navigateOK :: bool
  waitNavigationOK :: bool
  waitIdleOK :: bool
  optimizeOK :: bool
  pageHTML :: "string option"
  fetchResult :: "fetch option"
  pageCookies :: "netCookie list option"
  rfc1123 :: "int \<Rightarrow> string"
  writeOK :: bool

datatype result = Done | Failed string | Panicked

definition targetURL :: "HeadlessProxy \<Rightarrow> request \<Rightarrow> string" where
  "targetURL h r =
     (let t1 = (if \<not> suffix ''/'' (Upstream h) \<and> \<not> prefix ''/'' (URL_Path r)
                then Upstream h @ ''/'' else Upstream h);
          t2 = t1 @ URL_Path r
      in if URL_RawQuery r \<noteq> [] then t2 @ ''?'' @ URL_RawQuery r else t2)"

text \<open>Copying a header map onto the response writer, name by name and value by value.\<close>

definition writeHeaders :: "header \<Rightarrow> event list" where
  "writeHeaders hs = concat (map (\<lambda>(k, vs). map (AddHeader k) vs) hs)"

definition writeResult :: "env \<Rightarrow> string \<Rightarrow> result" where
  "writeResult e msg = (if writeOK e then Done else Failed msg)"

definition cookieStr :: "env \<Rightarrow> netCookie \<Rightarrow> string" where
  "cookieStr e c =
     nc_Name c @ ''='' @ nc_Value c
     @ (if nc_Path c \<noteq> [] then ''; Path='' @ nc_Path c else [])
     @ (if nc_Domain c \<noteq> [] then ''; Domain='' @ nc_Domain c else [])
     @ (if nc_Expires c \<noteq> 0 then ''; Expires='' @ rfc1123 e (nc_Expires c) else [])
     @ (if nc_Secure c then ''; Secure'' else [])
     @ (if nc_HTTPOnly c then ''; HttpOnly'' else [])"

text \<open>
  The end of \<^verbatim>\<open>ServeHTTP\<close>, reached with the captured status, headers and content: the
  page's cookies become \<^verbatim>\<open>Set-Cookie\<close> headers, the response is cached, and it is written.
\<close>

definition respond ::
  "HeadlessProxy \<Rightarrow> request \<Rightarrow> env \<Rightarrow> int \<Rightarrow> header \<Rightarrow> string \<Rightarrow> result \<times> HeadlessProxy \<times> event list" where
  "respond h r e statusCode headers content =
     (let synced = (if ForwardCookies h
                    then (case pageCookies e of
                            Some cs \<Rightarrow> fold (\<lambda>c hs. Header_Add hs ''Set-Cookie'' (cookieStr e c)) cs headers
                          | None \<Rightarrow> headers)
                    else headers);
          ev1 = (if ForwardCookies h then [PageCookies] else [])
      in case setCachedResponse h r content synced statusCode (nowStore e) of
           (h', ev2) \<Rightarrow>
             (if writeOK e
              then (Done, h', ev1 @ ev2 @ writeHeaders synced @ [WriteHeader statusCode, WriteBody content]
                      @ [LogInfo ''request completed''])
              else (Failed ''failed to write response'', h',
                    ev1 @ ev2 @ writeHeaders synced @ [WriteHeader statusCode, WriteBody content])))"

text \<open>The \<^verbatim>\<open>GET\<close> case of the switch, up to the function's exit (\<^verbatim>\<open>router.Stop\<close> is deferred).\<close>

definition serveGet ::
  "HeadlessProxy \<Rightarrow> request \<Rightarrow> env \<Rightarrow> result \<times> HeadlessProxy \<times> event list" where
  "serveGet h r e =
     (if hijackPanics e then (Panicked, h, [HijackRequests, RouterStop])
      else if \<not> navigateOK e
      then (Failed ''failed to navigate'', h, [HijackRequests, Navigate (targetURL h r), RouterStop])
      else if \<not> waitNavigationOK e
      then (Failed ''failed to wait for navigation'', h,
            [HijackRequests, Navigate (targetURL h r), WaitNavigation, RouterStop])
      else
        (let ev = [HijackRequests, Navigate (targetURL h r), WaitNavigation, WaitIdle]
               @ (if waitIdleOK e then [] else [LogWarn ''timeout waiting for network idle''])
               @ (if OptimizeResources h
                  then OptimizePage # (if optimizeOK e then [] else [LogError ''failed to optimize page''])
                  else [])
               @ [PageHTML]
         in case pageHTML e of
              None \<Rightarrow> (Failed ''failed to get page HTML'', h, ev @ [RouterStop])
            | Some content \<Rightarrow>
                (case respond h r e 200 (Header_Set [] ''Content-Type'' ''text/html; charset=utf-8'') content of
                   (res, h', ev') \<Rightarrow> (res, h', ev @ ev' @ [RouterStop]))))"

text \<open>The header map handed to the page's \<^verbatim>\<open>fetch\<close>.\<close>

definition fetchHeaders :: "HeadlessProxy \<Rightarrow> request \<Rightarrow> (string \<times> string) list" where
  "fetchHeaders h r =
     fold (\<lambda>hd m. if Header_Get (Header r) hd \<noteq> [] then AList.update hd (Header_Get (Header r) hd) m else m)
       (ForwardHeaders h) [(''Content-Type'', Header_Get (Header r) ''Content-Type'')]"

text \<open>The case of \<^verbatim>\<open>POST\<close>, \<^verbatim>\<open>PUT\<close>, \<^verbatim>\<open>DELETE\<close> and \<^verbatim>\<open>PATCH\<close>.\<close>

definition serveFetch ::
  "HeadlessProxy \<Rightarrow> request \<Rightarrow> env \<Rightarrow> result \<times> HeadlessProxy \<times> event list" where
  "serveFetch h r e =
     (case Body r of
        None \<Rightarrow> (Failed ''failed to read request body'', h, [])
      | Some body \<Rightarrow>
          (case fetchResult e of
             None \<Rightarrow> (Failed ''failed to execute fetch'', h, [EvalFetch (Method r) (targetURL h r) (fetchHeaders h r) body])
           | Some res \<Rightarrow>
               (case f_error res of
                  Some errorMsg \<Rightarrow>
                    (writeResult e ''write error'', h,
                     [EvalFetch (Method r) (targetURL h r) (fetchHeaders h r) body, LogError ''fetch API error'',
                      WriteHeader 502, WriteBody ''Error communicating with upstream server''])
                | None \<Rightarrow>
                    (case respond h r e
                            (case f_status res of Some st \<Rightarrow> st | None \<Rightarrow> 200)
                            (case f_headers res of
                               Some hm \<Rightarrow> fold (\<lambda>(k, v) hs. Header_Set hs k v) hm []
                             | None \<Rightarrow> [])
                            (case f_body res of Some b \<Rightarrow> b | None \<Rightarrow> []) of
                       (rs, h', ev') \<Rightarrow> (rs, h', EvalFetch (Method r) (targetURL h r) (fetchHeaders h r) body # ev')))))"

text \<open>
  The events of configuring the page when every step succeeds: the user agent, the script
  of the \<^verbatim>\<open>!h.EnableJS\<close> branch, and the request's cookies when they are forwarded (a
  cookie that cannot be set is logged).
\<close>

definition configureEvents :: "HeadlessProxy \<Rightarrow> request \<Rightarrow> env \<Rightarrow> event list" where
  "configureEvents h r e =
     SetUserAgent (UserAgent h)
     # (if \<not> EnableJS h then [EvalOnNewDocument] else [])
     @ (if ForwardCookies h
        then concat (map (\<lambda>c. SetCookies c
                             # (if setCookieOK e c then [] else [LogError ''failed to set cookie'']))
                       (Cookies r))
        else [])"

text \<open>
  \<^verbatim>\<open>ServeHTTP\<close> from the created page to the function's exit, without the deferred
  \<^verbatim>\<open>page.Close\<close> and \<^verbatim>\<open>returnBrowser\<close>.
\<close>

definition servePage ::
  "HeadlessProxy \<Rightarrow> request \<Rightarrow> env \<Rightarrow> result \<times> HeadlessProxy \<times> event list" where
  "servePage h r e =
     (if \<not> userAgentOK e then (Failed ''failed to set user agent'', h, [SetUserAgent (UserAgent h)])
      else if \<not> EnableJS h \<and> \<not> newDocumentOK e
      then (Failed ''failed to set JavaScript settings'', h, [SetUserAgent (UserAgent h), EvalOnNewDocument])
      else
        (let ev = configureEvents h r e
         in if Method r = ''GET''
            then (case serveGet h r e of (res, h', ev') \<Rightarrow> (res, h', ev @ ev'))
            else if Method r \<in> {''POST'', ''PUT'', ''DELETE'', ''PATCH''}
            then (case serveFetch h r e of (res, h', ev') \<Rightarrow> (res, h', ev @ ev'))
            else (writeResult e ''write error'', h,
                  ev @ [WriteHeader 405, WriteBody ''Method not allowed''])))"

text \<open>
  \<^verbatim>\<open>ServeHTTP\<close> from the acquired browser on, with the deferred \<^verbatim>\<open>page.Close\<close>; the deferred
  \<^verbatim>\<open>returnBrowser\<close> is applied by \<open>ServeHTTP\<close> below.
\<close>

definition serveBrowser ::
  "HeadlessProxy \<Rightarrow> request \<Rightarrow> env \<Rightarrow> browser \<Rightarrow> result \<times> HeadlessProxy \<times> event list" where
  "serveBrowser h r e b =
     (if \<not> pageOK e
      then (Failed ''failed to create page'', h, [LogInfo ''proxying request'', PageOpen b])
      else (case servePage h r e of
              (res, h', ev) \<Rightarrow>
                (res, h', [LogInfo ''proxying request'', PageOpen b] @ ev @ [PageClose]
                   @ (if pageCloseOK e then [] else [LogError ''failed to close page'']))))"

definition ServeHTTP ::
  "HeadlessProxy \<Rightarrow> request \<Rightarrow> env \<Rightarrow> result \<times> HeadlessProxy \<times> event list" where
  "ServeHTTP h r e =
     (case getCachedResponse h r (nowLookup e) of
        (Some (content, headers, statusCode), h1, ev1) \<Rightarrow>
          (writeResult e ''write error'', h1,
           ev1 @ [LogInfo ''serving cached response''] @ writeHeaders headers
             @ [WriteHeader statusCode, WriteBody content])
      | (None, h1, ev1) \<Rightarrow>
          (case getBrowser h1 (engine e) of
             (Inl p, h2, ev2) \<Rightarrow> (Panicked, h2, ev1 @ ev2)
           | (Inr None, h2, ev2) \<Rightarrow> (Failed ''failed to get browser from pool'', h2, ev1 @ ev2)
           | (Inr (Some b), h2, ev2) \<Rightarrow>
               (case serveBrowser h2 r e b of
                  (res, h3, ev3) \<Rightarrow>
                    (case returnBrowser h3 b of
                       (h4, ev4) \<Rightarrow> (res, h4, ev1 @ ev2 @ ev3 @ ev4)))))"

text \<open>Serving a sequence of requests, each with its own environment.\<close>

fun serveAll :: "HeadlessProxy \<Rightarrow> (request \<times> env) list \<Rightarrow> event list" where
  "serveAll h [] = []"
| "serveAll h ((r, e) # rest) =
     (case ServeHTTP h r e of (res, h', ev) \<Rightarrow> ev @ serveAll h' rest)"

section \<open>The health check of the health file\<close>

text \<open>
  \<^verbatim>\<open>checkBrowsersHealth\<close> ranges over the pool by index. \<open>healthy\<close> is the outcome of the
  probe \<^verbatim>\<open>isBrowserHealthy\<close> for each browser and \<open>eng i\<close> the engine's answer when a
  replacement for slot \<open>i\<close> is launched. The result is the pair of counts (healthy,
  unhealthy), or the launcher's panic, which ends the loop where it is.
\<close>

fun checkBrowsers ::
  "(browser \<Rightarrow> bool) \<Rightarrow> (nat \<Rightarrow> launch) \<Rightarrow> nat \<Rightarrow> browser list
     \<Rightarrow> (panic + nat \<times> nat) \<times> browser list \<times> event list" where
  "checkBrowsers healthy eng i [] = (Inr (0, 0), [], [])"
| "checkBrowsers healthy eng i (b # bs) =
     (if healthy b
      then (case checkBrowsers healthy eng (Suc i) bs of
              (Inl p, bs', ev) \<Rightarrow> (Inl p, b # bs', ev)
            | (Inr (hc, uc), bs', ev) \<Rightarrow> (Inr (Suc hc, uc), b # bs', ev))
      else (case createBrowser (eng i) of
              (Inl p, ev1) \<Rightarrow>
                (Inl p, b # bs,
                 [LogWarn ''replacing unhealthy browser in pool'', BrowserClose b,
                  MetricInc ''browserClosedTotal''] @ ev1)
            | (Inr None, ev1) \<Rightarrow>
                (case checkBrowsers healthy eng (Suc i) bs of
                   (rest, bs', ev) \<Rightarrow>
                     ((case rest of Inl p \<Rightarrow> Inl p | Inr (hc, uc) \<Rightarrow> Inr (hc, Suc uc)),
                      b # bs',
                      [LogWarn ''replacing unhealthy browser in pool'', BrowserClose b,
                       MetricInc ''browserClosedTotal''] @ ev1 @ ev))
            | (Inr (Some newBrowser), ev1) \<Rightarrow>
                (case checkBrowsers healthy eng (Suc i) bs of
                   (rest, bs', ev) \<Rightarrow>
                     ((case rest of Inl p \<Rightarrow> Inl p | Inr (hc, uc) \<Rightarrow> Inr (hc, Suc uc)),
                      newBrowser # bs',
                      [LogWarn ''replacing unhealthy browser in pool'', BrowserClose b,
                       MetricInc ''browserClosedTotal''] @ ev1
                      @ [MetricInc ''browserCreatedTotal''] @ ev))))"

definition checkBrowsersHealth ::
  "HeadlessProxy \<Rightarrow> (browser \<Rightarrow> bool) \<Rightarrow> (nat \<Rightarrow> launch)
     \<Rightarrow> (panic + nat \<times> nat) \<times> HeadlessProxy \<times> event list" where
  "checkBrowsersHealth h healthy eng =
     (case checkBrowsers healthy eng 0 (browserPool h) of
        (res, pool, ev) \<Rightarrow> (res, h\<lparr>browserPool := pool\<rparr>, ev))"

section \<open>Content type detection of the utilities file\<close>

text \<open>
  A Go byte slice: \<open>arr\<close> is the backing array from the slice's first element to its
  capacity, \<open>len\<close> the slice's length; the slice holds \<open>take (len c) (arr c)\<close>. A slice
  expression \<^verbatim>\<open>content[:n]\<close> on a slice is in range up to the capacity, not the length, and
  panics beyond it.
\<close>

record bytes =
  arr :: string
  len :: nat

definition wellformed :: "bytes \<Rightarrow> bool" where
  "wellformed c = (len c \<le> length (arr c))"

definition reslice :: "bytes \<Rightarrow> nat \<Rightarrow> panic + string" where
  "reslice c n = (if n \<le> length (arr c) then Inr (take n (arr c)) else Inl Panic)"

text \<open>
  \<^verbatim>\<open>detectContentType\<close>; \<open>sniff\<close> is \<^verbatim>\<open>http.DetectContentType\<close> of the standard library.
  Every test after the JSON test starts by evaluating \<^verbatim>\<open>content[:100]\<close>.
\<close>

definition detectContentType :: "(string \<Rightarrow> string) \<Rightarrow> bytes \<Rightarrow> panic + string" where
  "detectContentType sniff c =
     (let contentType = sniff (take (len c) (arr c))
      in if contentType = ''text/plain; charset=utf-8''
         then
           (if len c > 0 \<and> (arr c ! 0 = CHR ''{'' \<or> arr c ! 0 = CHR ''['')
            then Inr ''application/json; charset=utf-8''
            else if len c > 0 \<and> arr c ! 0 = CHR ''<''
            then (case reslice c 100 of
                    Inl p \<Rightarrow> Inl p
                  | Inr s \<Rightarrow>
                      (if strings_Contains s ''<html'' then Inr ''text/html; charset=utf-8''
                       else Inr ''application/xml; charset=utf-8''))
            else (case reslice c 100 of
                    Inl p \<Rightarrow> Inl p
                  | Inr s \<Rightarrow>
                      (if strings_Contains s ''{''
                          \<and> (strings_Contains s ''body'' \<or> strings_Contains s ''font''
                             \<or> strings_Contains s ''margin'')
                       then Inr ''text/css; charset=utf-8''
                       else if strings_Contains s ''function'' \<or> strings_Contains s ''var ''
                               \<or> strings_Contains s ''const '' \<or> strings_Contains s ''let ''
                       then Inr ''application/javascript; charset=utf-8''
                       else Inr contentType)))
         else Inr contentType)"

section \<open>Concrete inputs\<close>

text \<open>A concrete handler for evaluating the definitions: caching for 60 seconds, one pooled browser at most.\<close>

definition h0 :: HeadlessProxy where
  "h0 = \<lparr>Upstream = ''http://up'', Timeout = 30, UserAgent = ''ua'', EnableJS = True,
     ForwardCookies = True, ForwardHeaders = [''Accept-Language''], CacheTTL = 60,
     MaxBrowsers = 1, OptimizeResources = False, CompressImages = False,
     MinifyContent = False, browserPool = [], cache = []\<rparr>"

definition rPost :: request where
  "rPost = \<lparr>Method = ''POST'', URL_Path = ''/orders'', URL_RawQuery = [], URL_String = ''/orders'',
     Header = [], Cookies = [], Body = Some ''{}''\<rparr>"

definition rGet :: request where
  "rGet = \<lparr>Method = ''GET'', URL_Path = ''/'', URL_RawQuery = [], URL_String = ''/'',
     Header = [], Cookies = [], Body = Some []\<rparr>"

definition env0 :: env where
  "env0 = \<lparr>nowLookup = 0, nowStore = 0, engine = Connected 7, pageOK = True, pageCloseOK = True,
     userAgentOK = True, newDocumentOK = True, setCookieOK = (\<lambda>c. True), hijackPanics = False,
     navigateOK = True, waitNavigationOK = True, waitIdleOK = True, optimizeOK = True,
     pageHTML = Some ''<html></html>'',
     fetchResult = Some \<lparr>f_error = None, f_headers = Some [], f_status = Some 201, f_body = Some ''ok''\<rparr>,
     pageCookies = Some [], rfc1123 = (\<lambda>t. []), writeOK = True\<rparr>"

definition rTrace :: request where
  "rTrace = \<lparr>Method = ''TRACE'', URL_Path = ''/'', URL_RawQuery = [], URL_String = ''/'',
     Header = [], Cookies = [], Body = Some []\<rparr>"

definition rCookies :: "cookie list \<Rightarrow> request" where
  "rCookies cs = \<lparr>Method = ''GET'', URL_Path = ''/'', URL_RawQuery = [], URL_String = ''/'',
     Header = [], Cookies = cs, Body = Some []\<rparr>"

definition cookieA :: cookie where
  "cookieA = \<lparr>Name = ''a'', Value = ''1'', Domain = [], Path = []\<rparr>"

definition cookieB :: cookie where
  "cookieB = \<lparr>Name = ''b'', Value = ''2'', Domain = [], Path = []\<rparr>"

definition rLang :: "string \<Rightarrow> request" where
  "rLang v = \<lparr>Method = ''GET'', URL_Path = ''/'', URL_RawQuery = [], URL_String = ''/'',
     Header = [(''Accept-Language'', [v])], Cookies = [], Body = Some []\<rparr>"

definition plain :: "string \<Rightarrow> string" where
  "plain s = ''text/plain; charset=utf-8''"

definition hello100 :: bytes where
  "hello100 = \<lparr>arr = ''hello'' @ replicate 95 (CHR 0x00), len = 5\<rparr>"

definition hello_js :: bytes where
  "hello_js = \<lparr>arr = ''hello'' @ ''function'' @ replicate 87 (CHR 0x00), len = 5\<rparr>"

definition short_hi :: bytes where
  "short_hi = \<lparr>arr = ''hi'', len = 2\<rparr>"

definition long_a :: bytes where
  "long_a = \<lparr>arr = replicate 100 (CHR ''a''), len = 100\<rparr>"

definition rLangExtra :: request where
  "rLangExtra = \<lparr>Method = ''GET'', URL_Path = ''/'', URL_RawQuery = [], URL_String = ''http://other/'',
     Header = [(''Accept-Language'', [''en'']), (''Accept'', [''text/html''])], Cookies = [],
     Body = None\<rparr>"

section \<open>Auxiliary notions for the proofs\<close>

text \<open>
  \<open>same_cfg\<close>: a step leaves the pool, its bound and the script switch as they were.
  \<open>quiet js\<close>: a list of events closes no browser and, when \<open>js\<close> holds, does not run
  the script of the \<^verbatim>\<open>!h.EnableJS\<close> branch.
\<close>

definition same_cfg :: "HeadlessProxy \<Rightarrow> HeadlessProxy \<Rightarrow> bool" where
  "same_cfg h h' =
     (browserPool h' = browserPool h \<and> MaxBrowsers h' = MaxBrowsers h \<and> EnableJS h' = EnableJS h)"

definition quiet_event :: "bool \<Rightarrow> event \<Rightarrow> bool" where
  "quiet_event js x = (case x of BrowserClose b \<Rightarrow> False | EvalOnNewDocument \<Rightarrow> \<not> js | _ \<Rightarrow> True)"

definition quiet :: "bool \<Rightarrow> event list \<Rightarrow> bool" where
  "quiet js ev = list_all (quiet_event js) ev"

text \<open>
  The pieces of \<open>cacheKeyInput\<close>: what one forward header and what the cookies contribute;
  and the alphabet of \<open>sha256_hex\<close>.
\<close>

definition headerPart :: "request \<Rightarrow> string \<Rightarrow> string" where
  "headerPart r name = (if Header_Get (Header r) name \<noteq> [] then name @ '':'' @ Header_Get (Header r) name else [])"

definition cookiePart :: "HeadlessProxy \<Rightarrow> request \<Rightarrow> string" where
  "cookiePart h r = (if ForwardCookies h then concat (map (\<lambda>c. Name c @ ''='' @ Value c) (Cookies r)) else [])"

definition hexchars :: "char set" where
  "hexchars = set ''0123456789abcdef''"

section \<open>Properties of the pool\<close>

lemma pool_step_MaxBrowsers: "MaxBrowsers (pool_step h op) = MaxBrowsers h"
  by (cases op) (auto simp: pool_step_def getBrowser_def returnBrowser_def createBrowser_def
      split: launch.splits)

lemma pool_step_bounded: "pool_bounded h \<Longrightarrow> pool_bounded (pool_step h op)"
  by (cases op) (auto simp: pool_bounded_def pool_step_def getBrowser_def returnBrowser_def
      createBrowser_def split: launch.splits)

lemma pool_run_bounded: "pool_bounded h \<Longrightarrow> list_all pool_bounded (pool_run h ops)"
  by (induction ops arbitrary: h) (simp_all add: pool_step_bounded)

text \<open>
  Claim C4. Starting from a pool of at most \<open>MaxBrowsers\<close> sessions, after every prefix
  of every sequence of \<^verbatim>\<open>getBrowser\<close> and \<^verbatim>\<open>returnBrowser\<close> calls the pool holds between
  0 and \<open>MaxBrowsers\<close> sessions (and \<open>MaxBrowsers\<close> itself never changes); and a
  \<^verbatim>\<open>returnBrowser\<close> on a pool that already holds \<open>MaxBrowsers\<close> sessions closes the returned
  session and leaves the pool as it was.
\<close>

theorem C4_pool_bound:
  assumes "pool_bounded h"
  shows "list_all (\<lambda>h'. MaxBrowsers h' = MaxBrowsers h \<and> pool_bounded h') (pool_run h ops)
    \<and> (\<forall>h' b. int (length (browserPool h')) \<ge> MaxBrowsers h' \<longrightarrow>
          returnBrowser h' b = (h', [BrowserClose b]))"
proof -
  have run: "list_all (\<lambda>h'. MaxBrowsers h' = MaxBrowsers h \<and> pool_bounded h') (pool_run h ops)"
    using assms
  proof (induction ops arbitrary: h)
    case Nil
    then show ?case by simp
  next
    case (Cons op ops)
    have "pool_bounded (pool_step h op)"
      using Cons.prems by (rule pool_step_bounded)
    from Cons.IH [OF this] show ?case
      using Cons.prems by (simp add: pool_step_MaxBrowsers)
  qed
  have full: "\<forall>h' b. int (length (browserPool h')) \<ge> MaxBrowsers h' \<longrightarrow>
      returnBrowser h' b = (h', [BrowserClose b])"
    by (simp add: returnBrowser_def)
  from run full show ?thesis by blast
qed

theorem C4_pool_bound_witness:
  "pool_bounded h0
   \<and> map browserPool
        (pool_run h0 [Release 1, Release 2, Acquire ConnectFailed, Acquire (Connected 3), Release 3])
       = [[], [1], [1], [], [], [3]]
   \<and> list_all (\<lambda>h'. MaxBrowsers h' = MaxBrowsers h0 \<and> pool_bounded h')
        (pool_run h0 [Release 1, Release 2, Acquire ConnectFailed, Acquire (Connected 3), Release 3])
   \<and> returnBrowser (h0\<lparr>browserPool := [1]\<rparr>) 2 = (h0\<lparr>browserPool := [1]\<rparr>, [BrowserClose 2])"
proof -
  have b: "pool_bounded h0"
    by (simp add: pool_bounded_def h0_def)
  have r: "map browserPool
        (pool_run h0 [Release 1, Release 2, Acquire ConnectFailed, Acquire (Connected 3), Release 3])
       = [[], [1], [1], [], [], [3]]"
    by (simp add: pool_step_def getBrowser_def returnBrowser_def createBrowser_def h0_def)
  have f: "int (length (browserPool (h0\<lparr>browserPool := [1]\<rparr>))) \<ge> MaxBrowsers (h0\<lparr>browserPool := [1]\<rparr>)"
    by (simp add: h0_def)
  from C4_pool_bound [OF b, of "[Release 1, Release 2, Acquire ConnectFailed, Acquire (Connected 3), Release 3]"]
  show ?thesis using b r f by blast
qed

text \<open>
  Claim C8. \<^verbatim>\<open>getBrowser\<close> on a non-empty pool removes and returns the last session of
  the pool, which is where \<^verbatim>\<open>returnBrowser\<close> puts a returned session: returning a session
  below capacity and then acquiring yields that session and the pool as it was before.
  On an empty pool \<^verbatim>\<open>getBrowser\<close> asks the engine for a new session (\<^verbatim>\<open>createBrowser\<close>)
  and leaves the pool empty.
\<close>

theorem C8_pool_lifo:
  "(browserPool h \<noteq> [] \<longrightarrow>
      getBrowser h l = (Inr (Some (last (browserPool h))), h\<lparr>browserPool := butlast (browserPool h)\<rparr>, []))
   \<and> (int (length (browserPool h)) < MaxBrowsers h \<longrightarrow>
      fst (returnBrowser h b) = h\<lparr>browserPool := browserPool h @ [b]\<rparr>
      \<and> getBrowser (fst (returnBrowser h b)) l = (Inr (Some b), h, []))
   \<and> (browserPool h = [] \<longrightarrow>
      getBrowser h l = (fst (createBrowser l), h, snd (createBrowser l))
      \<and> EngineLaunch \<in> set (snd (createBrowser l)))"
  by (cases l) (simp_all add: getBrowser_def returnBrowser_def createBrowser_def)

theorem C8_pool_lifo_witness:
  "browserPool (h0\<lparr>MaxBrowsers := 3, browserPool := [4, 5]\<rparr>) \<noteq> []
   \<and> getBrowser (h0\<lparr>MaxBrowsers := 3, browserPool := [4, 5]\<rparr>) ConnectFailed
       = (Inr (Some 5), h0\<lparr>MaxBrowsers := 3, browserPool := [4]\<rparr>, [])
   \<and> int (length (browserPool (h0\<lparr>MaxBrowsers := 3, browserPool := [4, 5]\<rparr>)))
       < MaxBrowsers (h0\<lparr>MaxBrowsers := 3, browserPool := [4, 5]\<rparr>)
   \<and> getBrowser (fst (returnBrowser (h0\<lparr>MaxBrowsers := 3, browserPool := [4, 5]\<rparr>) 6)) ConnectFailed
       = (Inr (Some 6), h0\<lparr>MaxBrowsers := 3, browserPool := [4, 5]\<rparr>, [])
   \<and> browserPool h0 = []
   \<and> getBrowser h0 (Connected 7) = (Inr (Some 7), h0, [EngineLaunch])"
proof -
  let ?h = "h0\<lparr>MaxBrowsers := 3, browserPool := [4, 5]\<rparr>"
  have a: "browserPool ?h \<noteq> []" by simp
  have b: "int (length (browserPool ?h)) < MaxBrowsers ?h" by simp
  have c: "browserPool h0 = []" by (simp add: h0_def)
  from C8_pool_lifo [of ?h ConnectFailed 6] a
  have g1: "getBrowser ?h ConnectFailed
      = (Inr (Some (last (browserPool ?h))), ?h\<lparr>browserPool := butlast (browserPool ?h)\<rparr>, [])"
    by blast
  from C8_pool_lifo [of ?h ConnectFailed 6] b
  have g2: "getBrowser (fst (returnBrowser ?h 6)) ConnectFailed = (Inr (Some 6), ?h, [])"
    by blast
  from C8_pool_lifo [of h0 "Connected 7" 0] c
  have g3: "getBrowser h0 (Connected 7)
      = (fst (createBrowser (Connected 7)), h0, snd (createBrowser (Connected 7)))"
    by blast
  have g1': "getBrowser ?h ConnectFailed = (Inr (Some 5), h0\<lparr>MaxBrowsers := 3, browserPool := [4]\<rparr>, [])"
    unfolding g1 by simp
  have g3': "getBrowser h0 (Connected 7) = (Inr (Some 7), h0, [EngineLaunch])"
    unfolding g3 by (simp add: createBrowser_def)
  from a b c g1' g2 g3' show ?thesis by blast
qed

section \<open>Facts about the concrete inputs and the cache key\<close>

lemma h0_fields:
  "CacheTTL h0 = 60" "cache h0 = []" "browserPool h0 = []" "MaxBrowsers h0 = 1" "EnableJS h0"
  "ForwardCookies h0" "ForwardHeaders h0 = [''Accept-Language'']" "UserAgent h0 = ''ua''"
  "Upstream h0 = ''http://up''" "\<not> OptimizeResources h0"
  by (simp_all add: h0_def)

lemma getCacheKey_cache_update: "getCacheKey (h\<lparr>cache := c\<rparr>) r = getCacheKey h r"
  by (simp add: getCacheKey_def cacheKeyInput_def)

section \<open>Properties of the response cache\<close>

text \<open>
  Claim C1, evaluated on the handler file's functions. With caching enabled for 60
  seconds and an empty cache, \<^verbatim>\<open>setCachedResponse\<close> for a POST request writes an entry into
  the cache map, and \<^verbatim>\<open>getCachedResponse\<close> for the same POST request then returns that
  entry as a hit: neither function looks at the method. \<^verbatim>\<open>ServeHTTP\<close> answers the second
  POST from the cache, without a browser.
\<close>

theorem C1_post_is_cached:
  "setCachedResponse h0 rPost ''created'' [] 201 0
     = (h0\<lparr>cache := [(getCacheKey h0 rPost,
              \<lparr>Content = ''created'', Headers = [], StatusCode = 201, Expiration = 60000000000\<rparr>)]\<rparr>,
        [CacheStore (getCacheKey h0 rPost)])
   \<and> cache (fst (setCachedResponse h0 rPost ''created'' [] 201 0)) \<noteq> cache h0
   \<and> fst (getCachedResponse (fst (setCachedResponse h0 rPost ''created'' [] 201 0)) rPost 1)
     = Some (''created'', [], 201)
   \<and> ServeHTTP (fst (setCachedResponse h0 rPost ''created'' [] 201 0)) rPost (env0\<lparr>nowLookup := 1\<rparr>)
     = (Done, fst (setCachedResponse h0 rPost ''created'' [] 201 0),
        [CacheLookup (getCacheKey h0 rPost), LogInfo ''serving cached response'',
         WriteHeader 201, WriteBody ''created''])"
  by (simp add: setCachedResponse_def getCachedResponse_def getCacheKey_cache_update h0_fields Let_def
      ServeHTTP_def writeHeaders_def writeResult_def env0_def)

text \<open>
  The cache file's functions, for comparison: a request that is not a GET is never looked
  up and never stored.
\<close>

lemma cache_file_excludes_writes:
  "Method r \<noteq> ''GET'' \<Longrightarrow>
     cache_getCachedResponse h r now = (None, h, [])
     \<and> cache_setCachedResponse h r content headers statusCode now = (h, [])"
  by (simp add: cache_getCachedResponse_def cache_setCachedResponse_def cache_getCacheKey_def)

text \<open>
  Claim C2, evaluated on the handler file's functions. With caching enabled,
  \<^verbatim>\<open>setCachedResponse\<close> stores a response with status 500 that carries
  \<^verbatim>\<open>Cache-Control: no-store\<close>, and the next lookup serves it: the function tests neither the
  status nor the headers (nor the method, see C1).
\<close>

theorem C2_store_is_unguarded:
  "setCachedResponse h0 rGet ''oops'' [(''Cache-Control'', [''no-store''])] 500 0
     = (h0\<lparr>cache := [(getCacheKey h0 rGet,
              \<lparr>Content = ''oops'', Headers = [(''Cache-Control'', [''no-store''])], StatusCode = 500,
               Expiration = 60000000000\<rparr>)]\<rparr>,
        [CacheStore (getCacheKey h0 rGet)])
   \<and> Header_Get [(''Cache-Control'', [''no-store''])] ''Cache-Control'' = ''no-store''
   \<and> fst (getCachedResponse
            (fst (setCachedResponse h0 rGet ''oops'' [(''Cache-Control'', [''no-store''])] 500 0)) rGet 1)
     = Some (''oops'', [(''Cache-Control'', [''no-store''])], 500)"
  by (simp add: setCachedResponse_def getCachedResponse_def getCacheKey_cache_update h0_fields
      Header_Get_def canonicalMIMEHeaderKey_def validHeaderFieldByte_def Let_def)

text \<open>
  The cache file's \<^verbatim>\<open>setCachedResponse\<close>, for comparison, is a no-op unless caching is
  enabled, the request is a GET, the status is in [200, 300) and \<^verbatim>\<open>Cache-Control\<close> names
  neither \<^verbatim>\<open>no-store\<close> nor \<^verbatim>\<open>no-cache\<close>.
\<close>

lemma cache_file_store_guards:
  "CacheTTL h \<le> 0 \<or> Method r \<noteq> ''GET'' \<or> statusCode < 200 \<or> 300 \<le> statusCode
     \<or> strings_Contains (Header_Get headers ''Cache-Control'') ''no-store''
     \<or> strings_Contains (Header_Get headers ''Cache-Control'') ''no-cache''
   \<Longrightarrow> cache_setCachedResponse h r content headers statusCode now = (h, [])"
  by (cases "Header_Get headers ''Cache-Control''")
     (auto simp: cache_setCachedResponse_def Let_def)

section \<open>Properties of the health check\<close>

lemma checkBrowsers_length: "length (fst (snd (checkBrowsers healthy eng i bs))) = length bs"
proof (induction bs arbitrary: i)
  case Nil
  show ?case by simp
next
  case (Cons b bs)
  have ih: "length (fst (snd (checkBrowsers healthy eng (Suc i) bs))) = length bs"
    by (rule Cons.IH)
  show ?case
    using ih
    by (auto simp: createBrowser_def split: prod.splits sum.splits option.splits launch.splits)
qed

text \<open>
  Claim C7, evaluated. The pool holds browsers 1 and 2, browser 1 fails its probe and the
  engine cannot connect a replacement: browser 1 is closed, the failure is logged, and the
  closed browser 1 is still in its slot of the pool afterwards.
\<close>

theorem C7_failed_replacement_keeps_closed_browser:
  "checkBrowsersHealth (h0\<lparr>MaxBrowsers := 2, browserPool := [1, 2]\<rparr>) (\<lambda>b. b \<noteq> 1) (\<lambda>i. ConnectFailed)
     = (Inr (1, 1), h0\<lparr>MaxBrowsers := 2, browserPool := [1, 2]\<rparr>,
        [LogWarn ''replacing unhealthy browser in pool'', BrowserClose 1,
         MetricInc ''browserClosedTotal'', EngineLaunch, LogError ''failed to connect to browser''])"
  by (simp add: checkBrowsersHealth_def createBrowser_def)

section \<open>Properties of the request pipeline\<close>

lemma quiet_simps:
  "quiet js []"
  "quiet js (x # xs) = (quiet_event js x \<and> quiet js xs)"
  "quiet js (xs @ ys) = (quiet js xs \<and> quiet js ys)"
  by (simp_all add: quiet_def)

lemma quiet_writeHeaders: "quiet js (writeHeaders hs)"
  by (auto simp: writeHeaders_def quiet_def quiet_event_def list_all_iff)

lemma same_cfg_refl: "same_cfg h h"
  by (simp add: same_cfg_def)

lemma setCachedResponse_frame:
  "setCachedResponse h r c hs st now = (h', ev) \<Longrightarrow> same_cfg h h' \<and> quiet js ev"
  by (auto simp: setCachedResponse_def same_cfg_def quiet_simps quiet_event_def Let_def split: if_splits)

lemma respond_frame:
  assumes "respond h r e st hs c = (res, h', ev)"
  shows "same_cfg h h' \<and> quiet js ev"
proof -
  define synced where "synced = (if ForwardCookies h
                    then (case pageCookies e of
                            Some cs \<Rightarrow> fold (\<lambda>c hs. Header_Add hs ''Set-Cookie'' (cookieStr e c)) cs hs
                          | None \<Rightarrow> hs)
                    else hs)"
  obtain h1 ev1 where s: "setCachedResponse h r c synced st (nowStore e) = (h1, ev1)"
    by (cases "setCachedResponse h r c synced st (nowStore e)")
  from setCachedResponse_frame [OF s] have f: "same_cfg h h1" "quiet js ev1" by simp_all
  from assms s have "h' = h1"
    by (simp add: respond_def synced_def [symmetric] Let_def split: if_splits)
  moreover from assms s have "quiet js ev"
    using f(2)
    by (auto simp add: respond_def synced_def [symmetric] Let_def quiet_simps quiet_writeHeaders
        quiet_event_def split: if_splits)
  ultimately show ?thesis using f(1) by simp
qed

lemma serveGet_frame:
  assumes "serveGet h r e = (res, h', ev)"
  shows "same_cfg h h' \<and> quiet js ev"
proof (cases "pageHTML e")
  case None
  with assms show ?thesis
    by (auto simp: serveGet_def Let_def quiet_simps quiet_event_def same_cfg_refl split: if_splits)
next
  case (Some content)
  obtain rs h1 ev1 where
    s: "respond h r e 200 (Header_Set [] ''Content-Type'' ''text/html; charset=utf-8'') content = (rs, h1, ev1)"
    by (cases "respond h r e 200 (Header_Set [] ''Content-Type'' ''text/html; charset=utf-8'') content")
  from respond_frame [OF s] have f: "same_cfg h h1" "quiet js ev1" by simp_all
  from assms Some s f show ?thesis
    by (auto simp: serveGet_def Let_def quiet_simps quiet_event_def same_cfg_refl split: if_splits)
qed

lemma serveFetch_frame:
  assumes "serveFetch h r e = (res, h', ev)"
  shows "same_cfg h h' \<and> quiet js ev"
proof (cases "\<exists>body res. Body r = Some body \<and> fetchResult e = Some res \<and> f_error res = None")
  case False
  with assms show ?thesis
    by (auto simp: serveFetch_def quiet_simps quiet_event_def same_cfg_refl split: option.splits)
next
  case True
  then obtain body fr where b: "Body r = Some body" "fetchResult e = Some fr" "f_error fr = None"
    by blast
  define st where "st = (case f_status fr of Some st \<Rightarrow> st | None \<Rightarrow> 200)"
  define hs where "hs = (case f_headers fr of
                               Some hm \<Rightarrow> fold (\<lambda>(k, v) hs. Header_Set hs k v) hm []
                             | None \<Rightarrow> [])"
  define c where "c = (case f_body fr of Some b \<Rightarrow> b | None \<Rightarrow> [])"
  obtain rs h1 ev1 where s: "respond h r e st hs c = (rs, h1, ev1)"
    by (cases "respond h r e st hs c")
  from respond_frame [OF s] have f: "same_cfg h h1" "quiet js ev1" by simp_all
  from assms b s f show ?thesis
    by (auto simp: serveFetch_def st_def [symmetric] hs_def [symmetric] c_def [symmetric]
        quiet_simps quiet_event_def)
qed

lemma quiet_cookie_events:
  "quiet js (concat (map (\<lambda>c. SetCookies c # (if ok c then [] else [LogError msg])) cs))"
  by (induction cs) (simp_all add: quiet_simps quiet_event_def)

lemma servePage_frame:
  assumes "servePage h r e = (res, h', ev)"
  shows "same_cfg h h' \<and> quiet (EnableJS h) ev"
proof -
  obtain r1 h1 ev1 where g: "serveGet h r e = (r1, h1, ev1)"
    by (cases "serveGet h r e")
  obtain r2 h2 ev2 where p: "serveFetch h r e = (r2, h2, ev2)"
    by (cases "serveFetch h r e")
  note fg = serveGet_frame [OF g, of "EnableJS h"]
  note fp = serveFetch_frame [OF p, of "EnableJS h"]
  from assms g p fg fp show ?thesis
    by (auto simp: servePage_def configureEvents_def Let_def quiet_simps quiet_event_def quiet_cookie_events same_cfg_refl
        split: if_splits)
qed

lemma serveBrowser_frame:
  assumes "serveBrowser h r e b = (res, h', ev)"
  shows "same_cfg h h' \<and> quiet (EnableJS h) ev"
proof -
  obtain r1 h1 ev1 where g: "servePage h r e = (r1, h1, ev1)"
    by (cases "servePage h r e")
  note fg = servePage_frame [OF g]
  from assms g fg show ?thesis
    by (auto simp: serveBrowser_def quiet_simps quiet_event_def same_cfg_refl split: if_splits)
qed
lemma getCachedResponse_frame:
  "getCachedResponse h r now = (hit, h1, ev1) \<Longrightarrow> same_cfg h h1 \<and> quiet js ev1"
  by (auto simp: getCachedResponse_def same_cfg_def quiet_simps quiet_event_def Let_def
      split: if_splits option.splits)

lemma getBrowser_frame:
  "getBrowser h l = (res, h2, ev2) \<Longrightarrow>
     MaxBrowsers h2 = MaxBrowsers h \<and> EnableJS h2 = EnableJS h \<and> quiet js ev2"
  by (auto simp: getBrowser_def createBrowser_def quiet_simps quiet_event_def
      split: if_splits launch.splits)

lemma quiet_count: "quiet js ev \<Longrightarrow> count_list ev (BrowserClose b) = 0"
  by (induction ev) (auto simp: quiet_simps quiet_event_def)

lemma quiet_no_js: "quiet True ev \<Longrightarrow> EvalOnNewDocument \<notin> set ev"
  by (induction ev) (auto simp: quiet_simps quiet_event_def)

text \<open>
  Claim C5. Whenever the cache lookup misses and \<^verbatim>\<open>getBrowser\<close> hands out session \<open>b\<close>
  (leaving the handler \<open>h2\<close>), then whatever the page operations, the script, the
  response writer or a panic of the request router do, \<^verbatim>\<open>ServeHTTP\<close> ends with exactly one
  \<^verbatim>\<open>returnBrowser\<close> of \<open>b\<close>: below capacity \<open>b\<close> is appended to the pool as
  \<^verbatim>\<open>getBrowser\<close> left it and is not closed; at capacity the pool is as \<^verbatim>\<open>getBrowser\<close> left
  it and \<open>b\<close> is closed exactly once.
\<close>

theorem C5_release_exactly_once:
  assumes c: "getCachedResponse h r (nowLookup e) = (None, h1, ev1)"
    and g: "getBrowser h1 (engine e) = (Inr (Some b), h2, ev2)"
  shows "if int (length (browserPool h2)) < MaxBrowsers h2
         then browserPool (fst (snd (ServeHTTP h r e))) = browserPool h2 @ [b]
              \<and> count_list (snd (snd (ServeHTTP h r e))) (BrowserClose b) = 0
         else browserPool (fst (snd (ServeHTTP h r e))) = browserPool h2
              \<and> count_list (snd (snd (ServeHTTP h r e))) (BrowserClose b) = 1"
proof -
  obtain res h3 ev3 where s: "serveBrowser h2 r e b = (res, h3, ev3)"
    by (cases "serveBrowser h2 r e b")
  from serveBrowser_frame [OF s] have f3: "same_cfg h2 h3" "quiet (EnableJS h2) ev3"
    by simp_all
  from getCachedResponse_frame [OF c] have q1: "quiet (EnableJS h2) ev1"
    by simp
  from getBrowser_frame [OF g] have q2: "quiet (EnableJS h2) ev2"
    by simp
  have n: "count_list (ev1 @ ev2 @ ev3) (BrowserClose b) = 0"
    using q1 q2 f3(2) by (simp add: quiet_count)
  have run: "ServeHTTP h r e
      = (res, fst (returnBrowser h3 b), ev1 @ ev2 @ ev3 @ snd (returnBrowser h3 b))"
    by (simp add: ServeHTTP_def c g s split: prod.splits)
  show ?thesis
    using n f3(1) by (simp add: run returnBrowser_def same_cfg_def)
qed

theorem C5_release_exactly_once_witness:
  "getCachedResponse h0 rGet (nowLookup (env0\<lparr>navigateOK := False\<rparr>))
     = (None, h0, [CacheLookup (getCacheKey h0 rGet)])
   \<and> getBrowser h0 (engine (env0\<lparr>navigateOK := False\<rparr>)) = (Inr (Some 7), h0, [EngineLaunch])
   \<and> int (length (browserPool h0)) < MaxBrowsers h0
   \<and> fst (ServeHTTP h0 rGet (env0\<lparr>navigateOK := False\<rparr>)) = Failed ''failed to navigate''
   \<and> browserPool (fst (snd (ServeHTTP h0 rGet (env0\<lparr>navigateOK := False\<rparr>)))) = browserPool h0 @ [7]
   \<and> count_list (snd (snd (ServeHTTP h0 rGet (env0\<lparr>navigateOK := False\<rparr>)))) (BrowserClose 7) = 0"
proof -
  let ?e = "env0\<lparr>navigateOK := False\<rparr>"
  have c: "getCachedResponse h0 rGet (nowLookup ?e) = (None, h0, [CacheLookup (getCacheKey h0 rGet)])"
    by (simp add: getCachedResponse_def h0_fields)
  have g: "getBrowser h0 (engine ?e) = (Inr (Some 7), h0, [EngineLaunch])"
    by (simp add: getBrowser_def createBrowser_def h0_fields env0_def)
  have b: "int (length (browserPool h0)) < MaxBrowsers h0"
    by (simp add: h0_fields)
  have f: "fst (ServeHTTP h0 rGet ?e) = Failed ''failed to navigate''"
    by (simp add: ServeHTTP_def getCachedResponse_def getBrowser_def createBrowser_def
        serveBrowser_def servePage_def serveGet_def configureEvents_def returnBrowser_def
        h0_fields Let_def rGet_def env0_def)
  from C5_release_exactly_once [OF c g] b
  have "browserPool (fst (snd (ServeHTTP h0 rGet ?e))) = browserPool h0 @ [7]
    \<and> count_list (snd (snd (ServeHTTP h0 rGet ?e))) (BrowserClose 7) = 0"
    by simp
  with c g b f show ?thesis by blast
qed

lemma ServeHTTP_js:
  assumes js: "EnableJS h"
  shows "EnableJS (fst (snd (ServeHTTP h r e))) \<and> EvalOnNewDocument \<notin> set (snd (snd (ServeHTTP h r e)))"
proof -
  obtain hit h1 ev1 where c: "getCachedResponse h r (nowLookup e) = (hit, h1, ev1)"
    by (cases "getCachedResponse h r (nowLookup e)")
  from getCachedResponse_frame [OF c] js have f1: "EnableJS h1" "quiet True ev1"
    by (simp_all add: same_cfg_def)
  from f1 have n1: "EvalOnNewDocument \<notin> set ev1"
    by (simp add: quiet_no_js)
  have "\<exists>res h' ev. ServeHTTP h r e = (res, h', ev) \<and> EnableJS h' \<and> EvalOnNewDocument \<notin> set ev"
  proof (cases hit)
    case (Some t)
    obtain content headers statusCode where t: "t = (content, headers, statusCode)"
      by (cases t)
    have "EvalOnNewDocument \<notin> set (writeHeaders headers)"
      by (rule quiet_no_js) (rule quiet_writeHeaders)
    then show ?thesis
      using f1 n1 by (simp add: ServeHTTP_def c Some t)
  next
    case None
    obtain acq h2 ev2 where g: "getBrowser h1 (engine e) = (acq, h2, ev2)"
      by (cases "getBrowser h1 (engine e)")
    from getBrowser_frame [OF g] f1 have f2: "EnableJS h2" "quiet True ev2"
      by simp_all
    from f2 have n2: "EvalOnNewDocument \<notin> set ev2"
      by (simp add: quiet_no_js)
    show ?thesis
    proof (cases acq)
      case (Inl p)
      then show ?thesis
        using f1 f2 n1 n2 by (simp add: ServeHTTP_def c None g)
    next
      case (Inr ob)
      show ?thesis
      proof (cases ob)
        case None': None
        then show ?thesis
          using f1 f2 n1 n2 Inr None by (simp add: ServeHTTP_def c g)
      next
        case (Some b)
        obtain res h3 ev3 where s: "serveBrowser h2 r e b = (res, h3, ev3)"
          by (cases "serveBrowser h2 r e b")
        from serveBrowser_frame [OF s] f2 have f3: "EnableJS h3" "quiet True ev3"
          by (simp_all add: same_cfg_def)
        from f3 have n3: "EvalOnNewDocument \<notin> set ev3"
          by (simp add: quiet_no_js)
        show ?thesis
          using f3 n1 n2 n3
          by (simp add: ServeHTTP_def c None g Inr Some s returnBrowser_def)
      qed
    qed
  qed
  then show ?thesis
    by auto
qed

lemma serveAll_js: "EnableJS h \<Longrightarrow> EvalOnNewDocument \<notin> set (serveAll h reqs)"
proof (induction reqs arbitrary: h)
  case Nil
  show ?case by simp
next
  case (Cons p reqs)
  obtain r e where p: "p = (r, e)" by (cases p)
  obtain res h' ev where s: "ServeHTTP h r e = (res, h', ev)"
    by (cases "ServeHTTP h r e")
  from ServeHTTP_js [OF Cons.prems, of r e] s
  have "EnableJS h'" "EvalOnNewDocument \<notin> set ev" by simp_all
  with Cons.IH [of h'] show ?case
    by (simp add: p s)
qed

lemma Provision_js: "EnableJS (fst (snd (Provision h l)))"
  by (cases l) (simp_all add: Provision_def initBrowserPool_def createBrowser_def Let_def)

text \<open>
  Claim C9. Whatever the configuration before, \<open>EnableJS\<close> is true in the handler that
  \<^verbatim>\<open>Provision\<close> leaves (also when the launcher panics), and in no request served by that
  handler afterwards is the script of the \<^verbatim>\<open>!h.EnableJS\<close> branch evaluated.
\<close>

theorem C9_js_always_enabled:
  "EnableJS (fst (snd (Provision h l)))
   \<and> EvalOnNewDocument \<notin> set (serveAll (fst (snd (Provision h l))) reqs)"
  using Provision_js [of h l] serveAll_js [of "fst (snd (Provision h l))" reqs] by simp
lemma no_store_cookie_events:
  "CacheStore key \<notin> set (concat (map (\<lambda>c. SetCookies c # (if ok c then [] else [LogError msg])) cs))"
  by (induction cs) simp_all

lemma no_store_configure: "CacheStore key \<notin> set (configureEvents h r e)"
  by (simp add: configureEvents_def no_store_cookie_events)

lemma servePage_other:
  assumes m: "Method r \<notin> {''GET'', ''POST'', ''PUT'', ''DELETE'', ''PATCH''}"
  shows "fst (snd (servePage h r e)) = h"
    and "CacheStore key \<notin> set (snd (snd (servePage h r e)))"
    and "userAgentOK e \<Longrightarrow> EnableJS h \<or> newDocumentOK e \<Longrightarrow>
         servePage h r e = (writeResult e ''write error'', h,
            configureEvents h r e @ [WriteHeader 405, WriteBody ''Method not allowed''])"
  using m by (auto simp: servePage_def Let_def no_store_configure)

lemma serveBrowser_other:
  assumes m: "Method r \<notin> {''GET'', ''POST'', ''PUT'', ''DELETE'', ''PATCH''}"
  shows "fst (snd (serveBrowser h r e b)) = h"
    and "CacheStore key \<notin> set (snd (snd (serveBrowser h r e b)))"
    and "pageOK e \<Longrightarrow> userAgentOK e \<Longrightarrow> EnableJS h \<or> newDocumentOK e \<Longrightarrow>
         serveBrowser h r e b = (writeResult e ''write error'', h,
            [LogInfo ''proxying request'', PageOpen b] @ configureEvents h r e
            @ [WriteHeader 405, WriteBody ''Method not allowed'', PageClose]
            @ (if pageCloseOK e then [] else [LogError ''failed to close page'']))"
proof -
  obtain res h' ev where s: "servePage h r e = (res, h', ev)"
    by (cases "servePage h r e")
  from servePage_other(1) [OF m, of h e] s have h': "h' = h" by simp
  from servePage_other(2) [OF m, of key h e] s have ev: "CacheStore key \<notin> set ev" by simp
  show "fst (snd (serveBrowser h r e b)) = h"
    by (simp add: serveBrowser_def s h')
  show "CacheStore key \<notin> set (snd (snd (serveBrowser h r e b)))"
    using ev by (simp add: serveBrowser_def s)
  show "pageOK e \<Longrightarrow> userAgentOK e \<Longrightarrow> EnableJS h \<or> newDocumentOK e \<Longrightarrow>
         serveBrowser h r e b = (writeResult e ''write error'', h,
            [LogInfo ''proxying request'', PageOpen b] @ configureEvents h r e
            @ [WriteHeader 405, WriteBody ''Method not allowed'', PageClose]
            @ (if pageCloseOK e then [] else [LogError ''failed to close page'']))"
    using servePage_other(3) [OF m, of e h] by (simp add: serveBrowser_def)
qed

lemma no_store_writeHeaders: "CacheStore key \<notin> set (writeHeaders hs)"
  by (auto simp: writeHeaders_def)

lemma getCachedResponse_no_store:
  "CacheStore key \<notin> set (snd (snd (getCachedResponse h r now)))"
  by (simp add: getCachedResponse_def Let_def split: option.splits)

lemma getBrowser_cache:
  "cache (fst (snd (getBrowser h l))) = cache h \<and> CacheStore key \<notin> set (snd (snd (getBrowser h l)))"
  by (cases l) (simp_all add: getBrowser_def createBrowser_def)

lemma returnBrowser_cache:
  "cache (fst (returnBrowser h b)) = cache h \<and> CacheStore key \<notin> set (snd (returnBrowser h b))"
  by (simp add: returnBrowser_def)

text \<open>
  Claim C3, amended. For a request whose method is none of GET, POST, PUT, DELETE and
  PATCH, \<^verbatim>\<open>ServeHTTP\<close> stores nothing in the cache (the cache is as the lookup left it). The
  request goes through the common pipeline first: when the lookup misses, a session is
  acquired, the page is opened and configured, then the default branch of the switch
  answers 405 with the body \<^verbatim>\<open>Method not allowed\<close>, the page is closed and the session is
  handed to \<^verbatim>\<open>returnBrowser\<close>.
\<close>

theorem C3_other_method:
  assumes m: "Method r \<notin> {''GET'', ''POST'', ''PUT'', ''DELETE'', ''PATCH''}"
  shows "(\<forall>key. CacheStore key \<notin> set (snd (snd (ServeHTTP h r e))))
    \<and> cache (fst (snd (ServeHTTP h r e))) = cache (fst (snd (getCachedResponse h r (nowLookup e))))
    \<and> (\<forall>h1 ev1 h2 ev2 b.
          getCachedResponse h r (nowLookup e) = (None, h1, ev1) \<longrightarrow>
          getBrowser h1 (engine e) = (Inr (Some b), h2, ev2) \<longrightarrow>
          pageOK e \<longrightarrow> userAgentOK e \<longrightarrow> (EnableJS h2 \<or> newDocumentOK e) \<longrightarrow>
          ServeHTTP h r e =
            (writeResult e ''write error'', fst (returnBrowser h2 b),
             ev1 @ ev2 @ [LogInfo ''proxying request'', PageOpen b] @ configureEvents h2 r e
             @ [WriteHeader 405, WriteBody ''Method not allowed'', PageClose]
             @ (if pageCloseOK e then [] else [LogError ''failed to close page''])
             @ snd (returnBrowser h2 b)))"
proof -
  obtain hit h1 ev1 where c: "getCachedResponse h r (nowLookup e) = (hit, h1, ev1)"
    by (cases "getCachedResponse h r (nowLookup e)")
  obtain acq h2 ev2 where g: "getBrowser h1 (engine e) = (acq, h2, ev2)"
    by (cases "getBrowser h1 (engine e)")
  have n1: "\<And>key. CacheStore key \<notin> set ev1"
    using getCachedResponse_no_store [of _ h r "nowLookup e"] c by simp
  have n2: "\<And>key. CacheStore key \<notin> set ev2" and c2: "cache h2 = cache h1"
    using getBrowser_cache [of h1 "engine e"] g by simp_all
  have a: "(\<forall>key. CacheStore key \<notin> set (snd (snd (ServeHTTP h r e))))
    \<and> cache (fst (snd (ServeHTTP h r e))) = cache h1"
  proof (cases hit)
    case (Some t)
    obtain content headers statusCode where t: "t = (content, headers, statusCode)"
      by (cases t)
    show ?thesis
      using n1 by (simp add: ServeHTTP_def c Some t no_store_writeHeaders)
  next
    case None
    show ?thesis
    proof (cases acq)
      case (Inl p)
      then show ?thesis
        using n1 n2 c2 by (simp add: ServeHTTP_def c None g)
    next
      case (Inr ob)
      show ?thesis
      proof (cases ob)
        case None': None
        then show ?thesis
          using n1 n2 c2 Inr None by (simp add: ServeHTTP_def c g)
      next
        case (Some b)
        obtain res h3 ev3 where s: "serveBrowser h2 r e b = (res, h3, ev3)"
          by (cases "serveBrowser h2 r e b")
        from serveBrowser_other(1) [OF m, of h2 e b] s have h3: "h3 = h2" by simp
        have n3: "\<And>key. CacheStore key \<notin> set ev3"
          using serveBrowser_other(2) [OF m, of _ h2 e b] s by simp
        obtain h4 ev4 where rb: "returnBrowser h2 b = (h4, ev4)"
          by (cases "returnBrowser h2 b")
        have n4: "\<And>key. CacheStore key \<notin> set ev4" and c4: "cache h4 = cache h2"
          using returnBrowser_cache [of h2 b] rb by simp_all
        show ?thesis
          using n1 n2 n3 n4 c2 c4
          by (simp add: ServeHTTP_def c None g Inr Some s h3 rb)
      qed
    qed
  qed
  have b: "\<forall>h1' ev1' h2' ev2' b.
          getCachedResponse h r (nowLookup e) = (None, h1', ev1') \<longrightarrow>
          getBrowser h1' (engine e) = (Inr (Some b), h2', ev2') \<longrightarrow>
          pageOK e \<longrightarrow> userAgentOK e \<longrightarrow> (EnableJS h2' \<or> newDocumentOK e) \<longrightarrow>
          ServeHTTP h r e =
            (writeResult e ''write error'', fst (returnBrowser h2' b),
             ev1' @ ev2' @ [LogInfo ''proxying request'', PageOpen b] @ configureEvents h2' r e
             @ [WriteHeader 405, WriteBody ''Method not allowed'', PageClose]
             @ (if pageCloseOK e then [] else [LogError ''failed to close page''])
             @ snd (returnBrowser h2' b))"
  proof (intro allI impI)
    fix h1' ev1' h2' ev2' b
    assume c': "getCachedResponse h r (nowLookup e) = (None, h1', ev1')"
      and g': "getBrowser h1' (engine e) = (Inr (Some b), h2', ev2')"
      and ok: "pageOK e" "userAgentOK e" "EnableJS h2' \<or> newDocumentOK e"
    from serveBrowser_other(3) [OF m ok, of b]
    show "ServeHTTP h r e =
            (writeResult e ''write error'', fst (returnBrowser h2' b),
             ev1' @ ev2' @ [LogInfo ''proxying request'', PageOpen b] @ configureEvents h2' r e
             @ [WriteHeader 405, WriteBody ''Method not allowed'', PageClose]
             @ (if pageCloseOK e then [] else [LogError ''failed to close page''])
             @ snd (returnBrowser h2' b))"
      by (simp add: ServeHTTP_def c' g' split: prod.splits)
  qed
  from a b c show ?thesis by simp
qed

theorem C3_other_method_witness:
  "Method rTrace \<notin> {''GET'', ''POST'', ''PUT'', ''DELETE'', ''PATCH''}
   \<and> getCachedResponse h0 rTrace (nowLookup env0) = (None, h0, [CacheLookup (getCacheKey h0 rTrace)])
   \<and> getBrowser h0 (engine env0) = (Inr (Some 7), h0, [EngineLaunch])
   \<and> pageOK env0 \<and> userAgentOK env0 \<and> EnableJS h0
   \<and> (\<forall>key. CacheStore key \<notin> set (snd (snd (ServeHTTP h0 rTrace env0))))
   \<and> cache (fst (snd (ServeHTTP h0 rTrace env0))) = []
   \<and> ServeHTTP h0 rTrace env0 =
        (writeResult env0 ''write error'', fst (returnBrowser h0 7),
         [CacheLookup (getCacheKey h0 rTrace)] @ [EngineLaunch]
         @ [LogInfo ''proxying request'', PageOpen 7] @ configureEvents h0 rTrace env0
         @ [WriteHeader 405, WriteBody ''Method not allowed'', PageClose]
         @ (if pageCloseOK env0 then [] else [LogError ''failed to close page''])
         @ snd (returnBrowser h0 7))"
proof -
  have m: "Method rTrace \<notin> {''GET'', ''POST'', ''PUT'', ''DELETE'', ''PATCH''}"
    by (simp add: rTrace_def)
  have c: "getCachedResponse h0 rTrace (nowLookup env0) = (None, h0, [CacheLookup (getCacheKey h0 rTrace)])"
    by (simp add: getCachedResponse_def h0_fields)
  have g: "getBrowser h0 (engine env0) = (Inr (Some 7), h0, [EngineLaunch])"
    by (simp add: getBrowser_def createBrowser_def h0_fields env0_def)
  have ok: "pageOK env0" "userAgentOK env0" "EnableJS h0"
    by (simp_all add: env0_def h0_fields)
  note t = C3_other_method [OF m, of h0 env0]
  from t have s: "\<forall>key. CacheStore key \<notin> set (snd (snd (ServeHTTP h0 rTrace env0)))"
    by blast
  from t c have k: "cache (fst (snd (ServeHTTP h0 rTrace env0))) = []"
    by (simp add: h0_fields)
  from t c g ok
  have r: "ServeHTTP h0 rTrace env0 =
        (writeResult env0 ''write error'', fst (returnBrowser h0 7),
         [CacheLookup (getCacheKey h0 rTrace)] @ [EngineLaunch]
         @ [LogInfo ''proxying request'', PageOpen 7] @ configureEvents h0 rTrace env0
         @ [WriteHeader 405, WriteBody ''Method not allowed'', PageClose]
         @ (if pageCloseOK env0 then [] else [LogError ''failed to close page''])
         @ snd (returnBrowser h0 7))"
    by blast
  from m c g ok s k r show ?thesis by blast
qed

text \<open>
  The claim as stated fails: a TRACE request on an empty pool performs a cache lookup,
  launches a browser, and leaves it in the pool; and when no browser can be had the
  answer is an error, not a 405.
\<close>

theorem C3_counterexample:
  "Method rTrace \<notin> {''GET'', ''POST'', ''PUT'', ''DELETE'', ''PATCH''}
   \<and> ServeHTTP h0 rTrace env0
       = (Done, h0\<lparr>browserPool := [7]\<rparr>,
          [CacheLookup (getCacheKey h0 rTrace), EngineLaunch, LogInfo ''proxying request'', PageOpen 7,
           SetUserAgent ''ua'', WriteHeader 405, WriteBody ''Method not allowed'', PageClose])
   \<and> browserPool (fst (snd (ServeHTTP h0 rTrace env0))) \<noteq> browserPool h0
   \<and> ServeHTTP h0 rTrace (env0\<lparr>engine := ConnectFailed\<rparr>)
       = (Failed ''failed to get browser from pool'', h0,
          [CacheLookup (getCacheKey h0 rTrace), EngineLaunch, LogError ''failed to connect to browser''])"
  by (simp add: ServeHTTP_def getCachedResponse_def getBrowser_def createBrowser_def serveBrowser_def
      servePage_def configureEvents_def returnBrowser_def writeResult_def h0_fields Let_def
      rTrace_def env0_def)

section \<open>Properties of the cache key\<close>

lemma replicate_numeral_Cons: "replicate (numeral k) x = x # replicate (pred_numeral k) x"
  by (simp add: numeral_eq_Suc)

lemmas sha256_eval = sha256_hex_def sha_pad_def sha_block_def K256_def H256_def Ch_def Maj_def add32_def
  bsig0_def bsig1_def ssig0_def ssig1_def rotr_def hex32_def hexdigit_def Let_def replicate_numeral_Cons

lemma canonical_Accept_Language: "canonicalMIMEHeaderKey ''Accept-Language'' = ''Accept-Language''"
  by (simp add: canonicalMIMEHeaderKey_def validHeaderFieldByte_def Let_def)

lemma input_ab: "cacheKeyInput h0 (rCookies [cookieA, cookieB]) = ''GET/a=1b=2''"
  by (simp add: cacheKeyInput_def h0_fields rCookies_def cookieA_def cookieB_def Header_Get_def)

lemma input_ba: "cacheKeyInput h0 (rCookies [cookieB, cookieA]) = ''GET/b=2a=1''"
  by (simp add: cacheKeyInput_def h0_fields rCookies_def cookieA_def cookieB_def Header_Get_def)

lemma key_ab: "sha256_hex ''GET/a=1b=2'' = ''6d28ef9f640e9dde13deb5812eb82ccb0bcdedc0afadd75661ca782f3c57825b''"
  by (simp add: sha256_eval)

lemma key_ba: "sha256_hex ''GET/b=2a=1'' = ''0dc1a6d797de35deb904932ad98be802dbe84a769b56e3dec7b0f7eeccc0c90c''"
  by (simp add: sha256_eval)

lemma hexdigit_in: "n < 16 \<Longrightarrow> hexdigit n \<in> hexchars"
  unfolding hexdigit_def hexchars_def by (rule nth_mem) simp

lemma hex32_chars: "length (hex32 w) = 8 \<and> set (hex32 w) \<subseteq> hexchars"
  by (auto simp: hex32_def intro!: hexdigit_in)

lemma length8: "length s = 8 \<Longrightarrow> \<exists>a b c d e f g h. s = [a, b, c, d, e, f, g, h]"
  by (auto simp: length_Suc_conv eval_nat_numeral)

lemma sha_round_length: "length s = 8 \<Longrightarrow> length (sha_round s kw) = 8"
proof -
  assume "length s = 8"
  then obtain a b c d e f g h where s: "s = [a, b, c, d, e, f, g, h]"
    using length8 by blast
  obtain k w where kw: "kw = (k, w)" by (cases kw)
  show ?thesis by (simp add: s kw Let_def)
qed

lemma foldl_sha_round_length: "length s = 8 \<Longrightarrow> length (foldl sha_round s kws) = 8"
  by (induction kws arbitrary: s) (simp_all add: sha_round_length)

lemma sha_block_length: "length s = 8 \<Longrightarrow> length (sha_block s ws) = 8"
  by (simp add: sha_block_def foldl_sha_round_length)

lemma sha_blocks_length: "length s = 8 \<Longrightarrow> length (sha_blocks s ws) = 8"
  by (induction s ws rule: sha_blocks.induct) (simp_all add: sha_block_length)

lemma concat_hex32: "length (concat (map hex32 xs)) = 8 * length xs \<and> set (concat (map hex32 xs)) \<subseteq> hexchars"
  using hex32_chars by (induction xs) auto

lemma sha256_hex_shape: "length (sha256_hex m) = 64 \<and> set (sha256_hex m) \<subseteq> hexchars"
proof -
  have "length (sha_blocks H256 (be_words (sha_pad m))) = 8"
    by (rule sha_blocks_length) (simp add: H256_def)
  with concat_hex32 [of "sha_blocks H256 (be_words (sha_pad m))"] show ?thesis
    by (simp add: sha256_hex_def)
qed

lemma finite_range_sha256_hex: "finite (range sha256_hex)"
proof -
  have "range sha256_hex \<subseteq> {s. set s \<subseteq> hexchars \<and> length s = 64}"
    using sha256_hex_shape by auto
  moreover have "finite {s. set s \<subseteq> hexchars \<and> length s = 64}"
    by (rule finite_lists_length_eq) (simp add: hexchars_def)
  ultimately show ?thesis by (rule finite_subset)
qed

lemma key_collision_exists: "\<exists>v w. v \<noteq> w \<and> getCacheKey h0 (rLang v) = getCacheKey h0 (rLang w)"
proof (rule ccontr)
  assume "\<not> (\<exists>v w. v \<noteq> w \<and> getCacheKey h0 (rLang v) = getCacheKey h0 (rLang w))"
  then have "inj (\<lambda>v. getCacheKey h0 (rLang v))"
    by (auto simp: inj_on_def)
  moreover have "finite (range (\<lambda>v. getCacheKey h0 (rLang v)))"
    by (rule finite_subset [OF _ finite_range_sha256_hex]) (auto simp: getCacheKey_def)
  ultimately have "finite (UNIV :: string set)"
    by (rule finite_imageD [rotated])
  then show False
    using infinite_UNIV_listI by blast
qed

lemma rLang_header: "Header_Get (Header (rLang v)) ''Accept-Language'' = v"
  by (simp add: rLang_def Header_Get_def canonical_Accept_Language)

lemma cacheKeyInput_parts:
  "cacheKeyInput h r
     = Method r @ URL_Path r @ URL_RawQuery r @ concat (map (headerPart r) (ForwardHeaders h)) @ cookiePart h r"
  by (simp add: cacheKeyInput_def headerPart_def [abs_def] cookiePart_def)

lemma cookie_pairs:
  "map (\<lambda>c. (Name c, Value c)) cs1 = map (\<lambda>c. (Name c, Value c)) cs2 \<Longrightarrow>
   map (\<lambda>c. Name c @ ''='' @ Value c) cs1 = map (\<lambda>c. Name c @ ''='' @ Value c) cs2"
proof (induction cs1 arbitrary: cs2)
  case Nil
  then show ?case by simp
next
  case (Cons c cs1)
  then obtain d ds where cs2: "cs2 = d # ds" by (cases cs2) auto
  with Cons.prems have "Name c = Name d" "Value c = Value d"
    and rest: "map (\<lambda>c. (Name c, Value c)) cs1 = map (\<lambda>c. (Name c, Value c)) ds"
    by simp_all
  with Cons.IH [OF rest] show ?case by (simp add: cs2)
qed

lemma cookiePart_cong:
  assumes "ForwardCookies h \<longrightarrow>
           map (\<lambda>c. (Name c, Value c)) (Cookies r1) = map (\<lambda>c. (Name c, Value c)) (Cookies r2)"
  shows "cookiePart h r1 = cookiePart h r2"
proof (cases "ForwardCookies h")
  case True
  with assms have "map (\<lambda>c. (Name c, Value c)) (Cookies r1) = map (\<lambda>c. (Name c, Value c)) (Cookies r2)"
    by simp
  from cookie_pairs [OF this] show ?thesis
    by (simp only: cookiePart_def)
next
  case False
  then show ?thesis by (simp add: cookiePart_def)
qed

lemma headerPart_cong:
  assumes "\<forall>hd \<in> set hs. Header_Get (Header r1) hd = Header_Get (Header r2) hd"
  shows "map (headerPart r1) hs = map (headerPart r2) hs"
  using assms by (induction hs) (simp_all add: headerPart_def)

lemma headerPart_inj:
  "Header_Get (Header r1) x \<noteq> Header_Get (Header r2) x \<Longrightarrow> headerPart r1 x \<noteq> headerPart r2 x"
  by (auto simp: headerPart_def)

lemma cacheKeyInput_cong:
  assumes "Method r1 = Method r2" "URL_Path r1 = URL_Path r2" "URL_RawQuery r1 = URL_RawQuery r2"
    and hd: "\<forall>hd \<in> set (ForwardHeaders h). Header_Get (Header r1) hd = Header_Get (Header r2) hd"
    and ck: "ForwardCookies h \<longrightarrow>
           map (\<lambda>c. (Name c, Value c)) (Cookies r1) = map (\<lambda>c. (Name c, Value c)) (Cookies r2)"
  shows "cacheKeyInput h r1 = cacheKeyInput h r2"
  by (simp only: cacheKeyInput_parts assms(1-3) headerPart_cong [OF hd] cookiePart_cong [OF ck])

lemma cacheKeyInput_header_differs:
  assumes "Method r1 = Method r2" "URL_Path r1 = URL_Path r2" "URL_RawQuery r1 = URL_RawQuery r2"
    and fh: "ForwardHeaders h = pre @ [x] @ post"
    and others: "\<forall>hd \<in> set pre \<union> set post. Header_Get (Header r1) hd = Header_Get (Header r2) hd"
    and differs: "Header_Get (Header r1) x \<noteq> Header_Get (Header r2) x"
    and ck: "ForwardCookies h \<longrightarrow>
           map (\<lambda>c. (Name c, Value c)) (Cookies r1) = map (\<lambda>c. (Name c, Value c)) (Cookies r2)"
  shows "cacheKeyInput h r1 \<noteq> cacheKeyInput h r2"
proof
  assume e: "cacheKeyInput h r1 = cacheKeyInput h r2"
  from others have p: "\<forall>hd \<in> set pre. Header_Get (Header r1) hd = Header_Get (Header r2) hd"
    and q: "\<forall>hd \<in> set post. Header_Get (Header r1) hd = Header_Get (Header r2) hd"
    by simp_all
  define A where "A = Method r2 @ URL_Path r2 @ URL_RawQuery r2 @ concat (map (headerPart r2) pre)"
  define B where "B = concat (map (headerPart r2) post) @ cookiePart h r2"
  have i1: "cacheKeyInput h r1 = A @ headerPart r1 x @ B"
    by (simp add: cacheKeyInput_parts fh assms(1-3) headerPart_cong [OF p] headerPart_cong [OF q]
        cookiePart_cong [OF ck] A_def B_def)
  have i2: "cacheKeyInput h r2 = A @ headerPart r2 x @ B"
    by (simp add: cacheKeyInput_parts fh A_def B_def)
  from e have "headerPart r1 x = headerPart r2 x"
    unfolding i1 i2 by simp
  with headerPart_inj [OF differs] show False by contradiction
qed

text \<open>
  Claim C6, amended. (1) The key is a function of the fingerprinted attributes: two
  requests with the same method, path and query, the same value of every configured
  forward header and, when cookies are forwarded, the same cookie name/value pairs in the
  same order have the same key. (2) Two such requests that differ only in the value of one
  configured forward header write different bytes into the hasher; the key is the SHA-256
  digest of those bytes.
\<close>

theorem C6_cache_key:
  "(Method r1 = Method r2 \<and> URL_Path r1 = URL_Path r2 \<and> URL_RawQuery r1 = URL_RawQuery r2
      \<and> (\<forall>hd \<in> set (ForwardHeaders h). Header_Get (Header r1) hd = Header_Get (Header r2) hd)
      \<and> (ForwardCookies h \<longrightarrow>
            map (\<lambda>c. (Name c, Value c)) (Cookies r1) = map (\<lambda>c. (Name c, Value c)) (Cookies r2))
     \<longrightarrow> getCacheKey h r1 = getCacheKey h r2)
   \<and> (Method r1 = Method r2 \<and> URL_Path r1 = URL_Path r2 \<and> URL_RawQuery r1 = URL_RawQuery r2
      \<and> ForwardHeaders h = pre @ [x] @ post
      \<and> (\<forall>hd \<in> set pre \<union> set post. Header_Get (Header r1) hd = Header_Get (Header r2) hd)
      \<and> Header_Get (Header r1) x \<noteq> Header_Get (Header r2) x
      \<and> (ForwardCookies h \<longrightarrow>
            map (\<lambda>c. (Name c, Value c)) (Cookies r1) = map (\<lambda>c. (Name c, Value c)) (Cookies r2))
     \<longrightarrow> cacheKeyInput h r1 \<noteq> cacheKeyInput h r2
         \<and> getCacheKey h r1 = sha256_hex (cacheKeyInput h r1)
         \<and> getCacheKey h r2 = sha256_hex (cacheKeyInput h r2))"
proof (intro conjI impI)
  assume a: "Method r1 = Method r2 \<and> URL_Path r1 = URL_Path r2 \<and> URL_RawQuery r1 = URL_RawQuery r2
      \<and> (\<forall>hd \<in> set (ForwardHeaders h). Header_Get (Header r1) hd = Header_Get (Header r2) hd)
      \<and> (ForwardCookies h \<longrightarrow>
            map (\<lambda>c. (Name c, Value c)) (Cookies r1) = map (\<lambda>c. (Name c, Value c)) (Cookies r2))"
  then have "cacheKeyInput h r1 = cacheKeyInput h r2"
    by (intro cacheKeyInput_cong) simp_all
  then show "getCacheKey h r1 = getCacheKey h r2"
    by (simp add: getCacheKey_def)
next
  assume b: "Method r1 = Method r2 \<and> URL_Path r1 = URL_Path r2 \<and> URL_RawQuery r1 = URL_RawQuery r2
      \<and> ForwardHeaders h = pre @ [x] @ post
      \<and> (\<forall>hd \<in> set pre \<union> set post. Header_Get (Header r1) hd = Header_Get (Header r2) hd)
      \<and> Header_Get (Header r1) x \<noteq> Header_Get (Header r2) x
      \<and> (ForwardCookies h \<longrightarrow>
            map (\<lambda>c. (Name c, Value c)) (Cookies r1) = map (\<lambda>c. (Name c, Value c)) (Cookies r2))"
  then show "cacheKeyInput h r1 \<noteq> cacheKeyInput h r2"
    by (intro cacheKeyInput_header_differs [where pre = pre and x = x and post = post]) simp_all
qed (simp_all add: getCacheKey_def)

theorem C6_cache_key_witness:
  "Header_Get (Header (rLang ''en'')) ''Accept-Language'' = Header_Get (Header rLangExtra) ''Accept-Language''
   \<and> Header (rLang ''en'') \<noteq> Header rLangExtra \<and> Body (rLang ''en'') \<noteq> Body rLangExtra
   \<and> getCacheKey h0 (rLang ''en'') = getCacheKey h0 rLangExtra
   \<and> ForwardHeaders h0 = [] @ [''Accept-Language''] @ []
   \<and> Header_Get (Header (rLang ''en'')) ''Accept-Language'' \<noteq> Header_Get (Header (rLang ''de'')) ''Accept-Language''
   \<and> cacheKeyInput h0 (rLang ''en'') \<noteq> cacheKeyInput h0 (rLang ''de'')"
proof -
  have g: "Header_Get (Header rLangExtra) ''Accept-Language'' = ''en''"
    by (simp add: rLangExtra_def Header_Get_def canonical_Accept_Language)
  have e: "Header_Get (Header (rLang ''en'')) ''Accept-Language'' = Header_Get (Header rLangExtra) ''Accept-Language''"
    by (simp add: g rLang_header)
  have n: "Header (rLang ''en'') \<noteq> Header rLangExtra" "Body (rLang ''en'') \<noteq> Body rLangExtra"
    by (simp_all add: rLang_def rLangExtra_def)
  have s: "Method (rLang ''en'') = Method rLangExtra \<and> URL_Path (rLang ''en'') = URL_Path rLangExtra
      \<and> URL_RawQuery (rLang ''en'') = URL_RawQuery rLangExtra
      \<and> (\<forall>hd \<in> set (ForwardHeaders h0). Header_Get (Header (rLang ''en'')) hd = Header_Get (Header rLangExtra) hd)
      \<and> (ForwardCookies h0 \<longrightarrow>
            map (\<lambda>c. (Name c, Value c)) (Cookies (rLang ''en''))
              = map (\<lambda>c. (Name c, Value c)) (Cookies rLangExtra))"
    using e by (simp add: h0_fields) (simp add: rLang_def rLangExtra_def)
  from C6_cache_key [of "rLang ''en''" rLangExtra h0 "[]" "''Accept-Language''" "[]"] s
  have k: "getCacheKey h0 (rLang ''en'') = getCacheKey h0 rLangExtra"
    by blast
  have f: "ForwardHeaders h0 = [] @ [''Accept-Language''] @ []"
    by (simp add: h0_fields)
  have d: "Header_Get (Header (rLang ''en'')) ''Accept-Language'' \<noteq> Header_Get (Header (rLang ''de'')) ''Accept-Language''"
    by (simp add: rLang_header)
  have t: "Method (rLang ''en'') = Method (rLang ''de'') \<and> URL_Path (rLang ''en'') = URL_Path (rLang ''de'')
      \<and> URL_RawQuery (rLang ''en'') = URL_RawQuery (rLang ''de'')
      \<and> ForwardHeaders h0 = [] @ [''Accept-Language''] @ []
      \<and> (\<forall>hd \<in> set [] \<union> set []. Header_Get (Header (rLang ''en'')) hd = Header_Get (Header (rLang ''de'')) hd)
      \<and> Header_Get (Header (rLang ''en'')) ''Accept-Language'' \<noteq> Header_Get (Header (rLang ''de'')) ''Accept-Language''
      \<and> (ForwardCookies h0 \<longrightarrow>
            map (\<lambda>c. (Name c, Value c)) (Cookies (rLang ''en''))
              = map (\<lambda>c. (Name c, Value c)) (Cookies (rLang ''de'')))"
    using d f by (simp add: rLang_def)
  from C6_cache_key [of "rLang ''en''" "rLang ''de''" h0 "[]" "''Accept-Language''" "[]"] t
  have i: "cacheKeyInput h0 (rLang ''en'') \<noteq> cacheKeyInput h0 (rLang ''de'')"
    by blast
  from e n k f d i show ?thesis by blast
qed

text \<open>
  The claim as stated fails twice. The cookies are hashed in the order of the request,
  not sorted: the same two cookies in the other order give another key. And since a key
  is one of finitely many strings of 64 hexadecimal digits, different values of an
  allow-listed header cannot always give different keys.
\<close>

theorem C6_counterexample:
  "ForwardCookies h0
   \<and> set (Cookies (rCookies [cookieA, cookieB])) = set (Cookies (rCookies [cookieB, cookieA]))
   \<and> getCacheKey h0 (rCookies [cookieA, cookieB]) \<noteq> getCacheKey h0 (rCookies [cookieB, cookieA])
   \<and> ''Accept-Language'' \<in> set (ForwardHeaders h0)
   \<and> (\<forall>v. Header_Get (Header (rLang v)) ''Accept-Language'' = v)
   \<and> (\<exists>v w. v \<noteq> w \<and> getCacheKey h0 (rLang v) = getCacheKey h0 (rLang w))"
proof -
  have "getCacheKey h0 (rCookies [cookieA, cookieB]) \<noteq> getCacheKey h0 (rCookies [cookieB, cookieA])"
    by (simp add: getCacheKey_def input_ab input_ba key_ab key_ba)
  moreover have "set (Cookies (rCookies [cookieA, cookieB])) = set (Cookies (rCookies [cookieB, cookieA]))"
    by (auto simp: rCookies_def)
  ultimately show ?thesis
    using key_collision_exists rLang_header by (simp add: h0_fields)
qed

section \<open>Properties of content type detection\<close>

text \<open>
  Claim C10, amended. For a slice shorter than 100 bytes that sniffs as plain text and
  does not start with \<^verbatim>\<open>{\<close> or \<^verbatim>\<open>[\<close>, \<^verbatim>\<open>detectContentType\<close> evaluates
  \<^verbatim>\<open>content[:100]\<close>: it panics when the capacity is below 100 too, and returns a content
  type when the capacity is at least 100. For a slice of at least 100 bytes it always
  returns a content type.
\<close>

theorem C10_detectContentType:
  assumes wf: "wellformed c"
  shows "(len c < 100 \<and> sniff (take (len c) (arr c)) = ''text/plain; charset=utf-8''
          \<and> \<not> (len c > 0 \<and> (arr c ! 0 = CHR ''{'' \<or> arr c ! 0 = CHR ''[''))
         \<longrightarrow> (length (arr c) < 100 \<longrightarrow> detectContentType sniff c = Inl Panic)
             \<and> (100 \<le> length (arr c) \<longrightarrow> (\<exists>s. detectContentType sniff c = Inr s)))
    \<and> (100 \<le> len c \<longrightarrow> (\<exists>s. detectContentType sniff c = Inr s))"
  using wf
  by (auto simp: detectContentType_def reslice_def wellformed_def Let_def)

theorem C10_detectContentType_witness:
  "wellformed short_hi \<and> len short_hi < 100
   \<and> plain (take (len short_hi) (arr short_hi)) = ''text/plain; charset=utf-8''
   \<and> \<not> (len short_hi > 0 \<and> (arr short_hi ! 0 = CHR ''{'' \<or> arr short_hi ! 0 = CHR ''[''))
   \<and> length (arr short_hi) < 100
   \<and> detectContentType plain short_hi = Inl Panic
   \<and> wellformed long_a \<and> 100 \<le> len long_a
   \<and> (\<exists>s. detectContentType plain long_a = Inr s)"
proof -
  have w: "wellformed short_hi" "wellformed long_a"
    by (simp_all add: wellformed_def short_hi_def long_a_def)
  have a: "len short_hi < 100 \<and> plain (take (len short_hi) (arr short_hi)) = ''text/plain; charset=utf-8''
          \<and> \<not> (len short_hi > 0 \<and> (arr short_hi ! 0 = CHR ''{'' \<or> arr short_hi ! 0 = CHR ''[''))"
    by (simp add: short_hi_def plain_def)
  have c: "length (arr short_hi) < 100" "100 \<le> len long_a"
    by (simp_all add: short_hi_def long_a_def)
  from C10_detectContentType [OF w(1), of plain] a c(1)
  have p: "detectContentType plain short_hi = Inl Panic"
    by blast
  from C10_detectContentType [OF w(2), of plain] c(2)
  have r: "\<exists>s. detectContentType plain long_a = Inr s"
    by blast
  from w a c p r show ?thesis by blast
qed

text \<open>
  The claim as stated fails on a short slice with spare capacity: five bytes in a backing
  array of 100 are classified without a panic, and the answer depends on the bytes after
  the slice's length.
\<close>

theorem C10_counterexample:
  "wellformed hello100 \<and> len hello100 < 100
   \<and> plain (take (len hello100) (arr hello100)) = ''text/plain; charset=utf-8''
   \<and> arr hello100 ! 0 \<noteq> CHR ''{'' \<and> arr hello100 ! 0 \<noteq> CHR ''[''
   \<and> detectContentType plain hello100 = Inr ''text/plain; charset=utf-8''
   \<and> take (len hello_js) (arr hello_js) = take (len hello100) (arr hello100)
   \<and> detectContentType plain hello_js = Inr ''application/javascript; charset=utf-8''"
  by (simp add: detectContentType_def reslice_def wellformed_def hello100_def hello_js_def plain_def
      replicate_numeral_Cons)

end
